theory Spec2Isabelle
  imports Complex_Main
begin

section \<open>The ledger of accounts/abstract_models.py\<close>

text \<open>
  The module declares three abstract Django models (Account, Transfer, Transaction) and
  the manager that posts a transfer. The embedding keeps the database tables and the
  Python objects apart: an operation receives the objects it is called on, reads and
  writes the tables, and returns the objects as it leaves them, also when it raises.

  An object holds Python Decimals, which are rational numbers here; a row holds what a
  column \<open>DecimalField(max_digits=12, decimal_places=2)\<close> holds, a whole number of
  hundredths of at most twelve digits. Dates are day numbers. Timestamps
  (\<open>date_created\<close>) and the fields that none of the methods below reads and no
  constraint mentions (description, category, the users of an account, the product
  range) are left out. Accounts handed to the operations are rows with a primary key,
  and the balance of an account object is a Decimal: the field defaults to 0.00 and
  every save assigns one. Primary keys of transfers are handed out in increasing order;
  the rows of transactions are identified by their position.

  The tables enforce what the module declares: the twelve digits of the decimal
  columns, \<open>unique=True\<close> on the name and on the code of an account, and
  \<open>unique_together\<close> on Transaction. They check neither the length of a character
  field nor that the row a foreign key points to exists.
\<close>

type_synonym decimal = rat
type_synonym cents = int
type_synonym date = int

subsection \<open>Exceptions\<close>

text \<open>
  Modelled from the spec: the module \<open>accounts.exceptions\<close> is imported by the source but
  is not part of it. Its classes are the validation errors of the specification's error
  taxonomy: InvalidAmount, ClosedAccount, InsufficientFunds and AccountNotEmpty. The
  first two carry the message the source passes; InsufficientFunds carries the two values
  the source interpolates into \<open>"Unable to debit %.2f from account #%d:"\<close>, the requested
  amount and the identifier of the source account.

  RuntimeError is Python's builtin, raised by the two \<open>delete\<close> methods. IntegrityError
  is what the database raises when a write breaks a uniqueness constraint,
  InvalidOperation what the \<open>decimal\<close> module raises when a value does not fit the
  digits of its column, and DoesNotExist what following a foreign key to a missing row
  raises.
\<close>

datatype error =
    InvalidAmount string
  | ClosedAccount string
  | InsufficientFunds decimal nat
  | AccountNotEmpty
  | RuntimeError string
  | IntegrityError
  | InvalidOperation
  | DoesNotExist

fun is_validation_error :: "error \<Rightarrow> bool" where
  "is_validation_error (InvalidAmount m) = True"
| "is_validation_error (ClosedAccount m) = True"
| "is_validation_error (InsufficientFunds a i) = True"
| "is_validation_error AccountNotEmpty = True"
| "is_validation_error (RuntimeError m) = False"
| "is_validation_error IntegrityError = False"
| "is_validation_error InvalidOperation = False"
| "is_validation_error DoesNotExist = False"

subsection \<open>Decimal columns\<close>

text \<open>
  On its way to the table a Decimal is quantized to two places, half to even, with a
  precision of twelve digits (\<open>format_number\<close> of \<open>django.db.backends.util\<close>, called
  for every DecimalField of a row that is written); \<open>quantize\<close> raises
  InvalidOperation when the result has more digits than the precision. Read back, the
  column value is the Decimal of those hundredths.
\<close>

definition round_half_even :: "rat \<Rightarrow> int" where
  "round_half_even x =
     (let m = \<bar>x\<bar>; f = \<lfloor>m\<rfloor>; r = m - of_int f;
          q = (if r < 1 / 2 then f else if 1 / 2 < r then f + 1
               else if even f then f else f + 1)
      in if x < 0 then - q else q)"

definition format_number :: "decimal \<Rightarrow> error + cents" where
  "format_number x =
     (let c = round_half_even (x * 100)
      in if \<bar>c\<bar> < 10 ^ 12 then Inr c else Inl InvalidOperation)"

definition to_python :: "cents \<Rightarrow> decimal" where
  "to_python c = of_int c / 100"

subsection \<open>Objects, rows and tables\<close>

text \<open>
  The fields of an account; \<open>'d\<close> is \<open>decimal\<close> for the Python object and \<open>cents\<close>
  for the row.
\<close>

record 'd account =
  acc_id :: nat
  name :: "string option"
  code :: "string option"
  status :: string
  credit_limit :: "'d option"
  balance :: 'd
  start_date :: "date option"
  end_date :: "date option"

type_synonym account_object = "decimal account"
type_synonym account_row = "cents account"

text \<open>The class constants \<open>OPEN, CLOSED = 'Open', 'Closed'\<close>.\<close>

definition OPEN :: string where
  "OPEN = ''Open''"

definition CLOSED :: string where
  "CLOSED = ''Closed''"

text \<open>
  A new account takes the defaults of the field declarations: status OPEN, a credit limit
  of 0.00 (not null), a balance of 0.00, no name, no code and no dates.
\<close>

definition Account :: "nat \<Rightarrow> account_object" where
  "Account i = \<lparr>acc_id = i, name = None, code = None, status = OPEN, credit_limit = Some 0,
                 balance = 0, start_date = None, end_date = None\<rparr>"

text \<open>
  A User object of Django's \<open>auth\<close> application: its primary key, if it has been
  saved, and its username. A transfer refers to its user either through the User object
  it holds (the one it was constructed with) or, when it has been read from the table,
  through the key alone, which is followed to the row of the user when the attribute is
  read.
\<close>

record auth_user =
  user_id :: "nat option"
  user_username :: string

datatype user_ref = Held auth_user | Key nat

text \<open>
  A transfer has no primary key until it is inserted. \<open>source\<close> and \<open>destination\<close> are
  foreign keys; \<open>username\<close> is a CharField, empty by default. Again \<open>'d\<close> is \<open>decimal\<close>
  for the object and \<open>cents\<close> for the row, and the user of a row is a key.
\<close>

record 'd transfer =
  transfer_id :: "nat option"
  source :: nat
  destination :: nat
  amount :: 'd
  description :: "string option"
  user :: "user_ref option"
  username :: string

type_synonym transfer_object = "decimal transfer"
type_synonym transfer_row = "cents transfer"

record transaction =
  txn_transfer :: nat
  txn_account :: nat
  txn_amount :: cents

record db =
  accounts :: "account_row list"
  users :: "nat \<rightharpoonup> string"
  transfers :: "transfer_row list"
  transactions :: "transaction list"

definition empty_db :: db where
  "empty_db = \<lparr>accounts = [], users = Map.empty, transfers = [], transactions = []\<rparr>"

definition find_account :: "db \<Rightarrow> nat \<Rightarrow> account_row option" where
  "find_account d k = find (\<lambda>r. acc_id r = k) (accounts d)"

definition find_transfer :: "db \<Rightarrow> nat \<Rightarrow> transfer_row option" where
  "find_transfer d k = find (\<lambda>r. transfer_id r = Some k) (transfers d)"

text \<open>The Transfer object that reading a row gives.\<close>

definition read_transfer :: "transfer_row \<Rightarrow> transfer_object" where
  "read_transfer r =
     \<lparr>transfer_id = transfer_id r, source = source r, destination = destination r,
      amount = to_python (amount r), description = description r, user = user r,
      username = username r\<rparr>"

subsection \<open>Account\<close>

text \<open>
  \<open>is_active\<close> reads \<open>datetime.date.today()\<close>; the date is a parameter here. A date
  object is always true in a condition, so \<open>if self.start_date\<close> tests for None.
\<close>

definition is_active :: "account_object \<Rightarrow> date \<Rightarrow> bool" where
  "is_active a today =
     (case (start_date a, end_date a) of
        (None, None) \<Rightarrow> True
      | (Some s, None) \<Rightarrow> s \<le> today
      | (None, Some e) \<Rightarrow> today < e
      | (Some s, Some e) \<Rightarrow> s \<le> today \<and> today < e)"

text \<open>
  \<open>_balance\<close>: \<open>Sum('amount')\<close> over the transactions of the account is None when there
  is no row, and then the balance is 0.00.
\<close>

definition aggregate_sum :: "cents list \<Rightarrow> cents option" where
  "aggregate_sum xs = (if xs = [] then None else Some (sum_list xs))"

definition account_transactions :: "db \<Rightarrow> account_object \<Rightarrow> transaction list" where
  "account_transactions d a = filter (\<lambda>x. txn_account x = acc_id a) (transactions d)"

definition Account_balance :: "db \<Rightarrow> account_object \<Rightarrow> decimal" where
  "Account_balance d a =
     (case aggregate_sum (map txn_amount (account_transactions d a)) of
        None \<Rightarrow> 0
      | Some s \<Rightarrow> to_python s)"

definition num_transactions :: "db \<Rightarrow> account_object \<Rightarrow> nat" where
  "num_transactions d a = length (account_transactions d a)"

text \<open>\<open>upper\<close> on the ASCII letters; a string of ASCII characters is all it is right for.\<close>

definition upper_char :: "char \<Rightarrow> char" where
  "upper_char c =
     (let n = (of_char c :: nat) in if 97 \<le> n \<and> n \<le> 122 then char_of (n - 32) else c)"

definition upper :: "string \<Rightarrow> string" where
  "upper s = map upper_char s"

definition ascii :: "string \<Rightarrow> bool" where
  "ascii s = list_all (\<lambda>c. (of_char c :: nat) < 128) s"

text \<open>
  Writing the row of an account (\<open>models.Model.save\<close>): the decimal fields are prepared
  for their columns, which may raise; then the row replaces the row with this primary
  key, or is inserted when there is none, unless another row has the same name or the
  same code (a null name or code clashes with nothing).
\<close>

definition account_row :: "account_object \<Rightarrow> error + account_row" where
  "account_row a =
     (case (case credit_limit a of
              None \<Rightarrow> Inr None
            | Some l \<Rightarrow> (case format_number l of Inl e \<Rightarrow> Inl e | Inr c \<Rightarrow> Inr (Some c))) of
        Inl e \<Rightarrow> Inl e
      | Inr l \<Rightarrow>
          (case format_number (balance a) of
             Inl e \<Rightarrow> Inl e
           | Inr b \<Rightarrow>
               Inr \<lparr>acc_id = acc_id a, name = name a, code = code a, status = status a,
                    credit_limit = l, balance = b, start_date = start_date a,
                    end_date = end_date a\<rparr>))"

definition shares :: "'a account \<Rightarrow> 'b account \<Rightarrow> bool" where
  "shares r b =
     ((name r \<noteq> None \<and> name r = name b) \<or> (code r \<noteq> None \<and> code r = code b))"

definition unique_violation :: "account_row list \<Rightarrow> 'b account \<Rightarrow> bool" where
  "unique_violation rows b = list_ex (\<lambda>r. acc_id r \<noteq> acc_id b \<and> shares r b) rows"

definition upsert :: "account_row \<Rightarrow> account_row list \<Rightarrow> account_row list" where
  "upsert r rows =
     (if list_ex (\<lambda>x. acc_id x = acc_id r) rows
      then map (\<lambda>x. if acc_id x = acc_id r then r else x) rows
      else rows @ [r])"

definition write_account :: "db \<Rightarrow> account_object \<Rightarrow> error + db" where
  "write_account d a =
     (case account_row a of
        Inl e \<Rightarrow> Inl e
      | Inr r \<Rightarrow>
          if unique_violation (accounts d) r then Inl IntegrityError
          else Inr (d\<lparr>accounts := upsert r (accounts d)\<rparr>))"

text \<open>
  \<open>save\<close> changes the object (code, balance) and then writes its row. When the write
  raises, the object keeps the changes and the tables are as they were.
\<close>

definition Account_save :: "db \<Rightarrow> account_object \<Rightarrow> (error + unit) \<times> account_object \<times> db" where
  "Account_save d a =
     (let a1 = (case code a of
                  None \<Rightarrow> a
                | Some c \<Rightarrow> if c = [] then a else a\<lparr>code := Some (upper c)\<rparr>);
          a2 = a1\<lparr>balance := Account_balance d a1\<rparr>
      in case write_account d a2 of
           Inl e \<Rightarrow> (Inl e, a2, d)
         | Inr d' \<Rightarrow> (Inr (), a2, d'))"

definition has_credit_limit :: "account_object \<Rightarrow> bool" where
  "has_credit_limit a = (credit_limit a \<noteq> None)"

definition is_debit_permitted :: "account_object \<Rightarrow> decimal \<Rightarrow> bool" where
  "is_debit_permitted a amt =
     (case credit_limit a of
        None \<Rightarrow> True
      | Some limit \<Rightarrow> (let available = balance a + limit in amt \<le> available))"

definition is_open :: "account_object \<Rightarrow> bool" where
  "is_open a = (status a = OPEN)"

text \<open>
  \<open>close\<close> raises before it changes anything, or else changes the status and saves. It
  returns the exception or None, the account object and the tables as it leaves them.
\<close>

definition close :: "db \<Rightarrow> account_object \<Rightarrow> (error + unit) \<times> account_object \<times> db" where
  "close d a =
     (if balance a > 0 then (Inl AccountNotEmpty, a, d)
      else Account_save d (a\<lparr>status := CLOSED\<rparr>))"

subsection \<open>Transfer and Transaction\<close>

definition next_transfer_id :: "db \<Rightarrow> nat" where
  "next_transfer_id d =
     Suc (foldr max (map (\<lambda>t. case transfer_id t of None \<Rightarrow> 0 | Some n \<Rightarrow> n) (transfers d)) 0)"

text \<open>
  The row of a transfer: the amount prepared for its column, and for the user the key of
  the User object held (none when that user has never been saved).
\<close>

definition transfer_row :: "transfer_object \<Rightarrow> error + transfer_row" where
  "transfer_row t =
     (case format_number (amount t) of
        Inl e \<Rightarrow> Inl e
      | Inr c \<Rightarrow>
          Inr \<lparr>transfer_id = transfer_id t, source = source t, destination = destination t,
               amount = c, description = description t,
               user = (case user t of
                         None \<Rightarrow> None
                       | Some (Held u) \<Rightarrow> map_option Key (user_id u)
                       | Some (Key k) \<Rightarrow> Some (Key k)),
               username = username t\<rparr>)"

text \<open>
  Writing a transfer: one without a primary key is inserted under the next key, which
  the object then carries; one that has a key replaces the row with that key, or is
  inserted when no row has it.
\<close>

definition write_transfer :: "db \<Rightarrow> transfer_object \<Rightarrow> (error + unit) \<times> transfer_object \<times> db" where
  "write_transfer d t =
     (case transfer_id t of
        None \<Rightarrow>
          (let t' = t\<lparr>transfer_id := Some (next_transfer_id d)\<rparr>
           in case transfer_row t' of
                Inl e \<Rightarrow> (Inl e, t, d)
              | Inr r \<Rightarrow> (Inr (), t', d\<lparr>transfers := transfers d @ [r]\<rparr>))
      | Some n \<Rightarrow>
          (case transfer_row t of
             Inl e \<Rightarrow> (Inl e, t, d)
           | Inr r \<Rightarrow>
               if list_ex (\<lambda>x. transfer_id x = Some n) (transfers d)
               then (Inr (), t,
                     d\<lparr>transfers := map (\<lambda>x. if transfer_id x = Some n then r else x) (transfers d)\<rparr>)
               else (Inr (), t, d\<lparr>transfers := transfers d @ [r]\<rparr>)))"

text \<open>
  Reading \<open>self.user\<close>: the User object held, or the user whose row the key leads to.
  A model object is always true in a condition, so \<open>if self.user\<close> tests for None.
\<close>

definition the_user :: "db \<Rightarrow> 'd transfer \<Rightarrow> error + auth_user option" where
  "the_user d t =
     (case user t of
        None \<Rightarrow> Inr None
      | Some (Held u) \<Rightarrow> Inr (Some u)
      | Some (Key k) \<Rightarrow>
          (case users d k of
             None \<Rightarrow> Inl DoesNotExist
           | Some n \<Rightarrow> Inr (Some \<lparr>user_id = Some k, user_username = n\<rparr>)))"

text \<open>
  \<open>Transfer.save\<close>: the username of the authorising user, when there is one, is copied
  into the object; then the row is written.
\<close>

definition Transfer_save :: "db \<Rightarrow> transfer_object \<Rightarrow> (error + unit) \<times> transfer_object \<times> db" where
  "Transfer_save d t =
     (case the_user d t of
        Inl e \<Rightarrow> (Inl e, t, d)
      | Inr None \<Rightarrow> write_transfer d t
      | Inr (Some u) \<Rightarrow> write_transfer d (t\<lparr>username := user_username u\<rparr>))"

definition authorisor_username :: "db \<Rightarrow> 'd transfer \<Rightarrow> error + string" where
  "authorisor_username d t =
     (case the_user d t of
        Inl e \<Rightarrow> Inl e
      | Inr None \<Rightarrow> Inr (username t)
      | Inr (Some u) \<Rightarrow> Inr (user_username u))"

definition Transfer_delete :: "db \<Rightarrow> 'd transfer \<Rightarrow> (error + unit) \<times> db" where
  "Transfer_delete d t = (Inl (RuntimeError ''Transfers cannot be deleted''), d)"

definition Transaction_delete :: "db \<Rightarrow> transaction \<Rightarrow> (error + unit) \<times> db" where
  "Transaction_delete d x = (Inl (RuntimeError ''Transactions cannot be deleted''), d)"

text \<open>
  \<open>transfer.transactions.create(account=..., amount=...)\<close>: the amount is prepared for
  its column; \<open>unique_together = ('transfer', 'account')\<close> makes the database refuse a
  second row for the same pair.
\<close>

definition Transaction_create :: "db \<Rightarrow> nat \<Rightarrow> nat \<Rightarrow> decimal \<Rightarrow> error + db" where
  "Transaction_create d tid acc amt =
     (case format_number amt of
        Inl e \<Rightarrow> Inl e
      | Inr c \<Rightarrow>
          if list_ex (\<lambda>y. txn_transfer y = tid \<and> txn_account y = acc) (transactions d)
          then Inl IntegrityError
          else Inr (d\<lparr>transactions := transactions d @
                      [\<lparr>txn_transfer = tid, txn_account = acc, txn_amount = c\<rparr>]\<rparr>))"

subsection \<open>PostingManager\<close>

definition verify_transfer :: "account_object \<Rightarrow> account_object \<Rightarrow> decimal \<Rightarrow> error + unit" where
  "verify_transfer src dst amt =
     (if amt \<le> 0 then Inl (InvalidAmount ''Debits must use a positive amount'')
      else if \<not> is_open src then Inl (ClosedAccount ''Source account has been closed'')
      else if \<not> is_open dst then Inl (ClosedAccount ''Destination account has been closed'')
      else if \<not> is_debit_permitted src amt then Inl (InsufficientFunds amt (acc_id src))
      else Inr ())"

definition wrap :: "transfer_object \<Rightarrow> transfer_object" where
  "wrap obj = obj"

text \<open>
  The statements under \<open>with transaction.commit_on_success()\<close>. An exception leaves the
  block at the statement that raises it, with the two account objects as the statements
  before it have left them. The \<open>user\<close> argument is a User object or None. The related
  manager \<open>transfer.transactions\<close> needs the key of the transfer, which an inserted
  transfer always has.
\<close>

definition posting :: "db \<Rightarrow> account_object \<Rightarrow> account_object \<Rightarrow> decimal \<Rightarrow> auth_user option
    \<Rightarrow> string option \<Rightarrow> (error + transfer_object) \<times> account_object \<times> account_object \<times> db" where
  "posting d src dst amt usr descr =
     (case Transfer_save d \<lparr>transfer_id = None, source = acc_id src, destination = acc_id dst,
                             amount = amt, description = descr, user = map_option Held usr,
                             username = []\<rparr> of
        (Inl e, t, d1) \<Rightarrow> (Inl e, src, dst, d1)
      | (Inr _, t, d1) \<Rightarrow>
          (case transfer_id t of
             None \<Rightarrow> (Inl IntegrityError, src, dst, d1)
           | Some tid \<Rightarrow>
               (case Transaction_create d1 tid (acc_id src) (- amt) of
                  Inl e \<Rightarrow> (Inl e, src, dst, d1)
                | Inr d2 \<Rightarrow>
                    (case Transaction_create d2 tid (acc_id dst) amt of
                       Inl e \<Rightarrow> (Inl e, src, dst, d2)
                     | Inr d3 \<Rightarrow>
                         (case Account_save d3 src of
                            (Inl e, src', d4) \<Rightarrow> (Inl e, src', dst, d4)
                          | (Inr _, src', d4) \<Rightarrow>
                              (case Account_save d4 dst of
                                 (Inl e, dst', d5) \<Rightarrow> (Inl e, src', dst', d5)
                               | (Inr _, dst', d5) \<Rightarrow> (Inr (wrap t), src', dst', d5)))))))"

text \<open>
  \<open>commit_on_success\<close> commits what the block wrote when it returns and rolls all of it
  back when it raises; the objects are not rolled back.
\<close>

definition commit_on_success :: "db
    \<Rightarrow> (error + transfer_object) \<times> account_object \<times> account_object \<times> db
    \<Rightarrow> (error + transfer_object) \<times> account_object \<times> account_object \<times> db" where
  "commit_on_success d r =
     (case r of
        (Inl e, src', dst', d') \<Rightarrow> (Inl e, src', dst', d)
      | (Inr t, src', dst', d') \<Rightarrow> (Inr t, src', dst', d'))"

text \<open>
  \<open>create\<close> returns the transfer or the exception, the two account objects and the
  tables as the call leaves them.
\<close>

definition create :: "db \<Rightarrow> account_object \<Rightarrow> account_object \<Rightarrow> decimal \<Rightarrow> auth_user option
    \<Rightarrow> string option \<Rightarrow> (error + transfer_object) \<times> account_object \<times> account_object \<times> db" where
  "create d src dst amt usr descr =
     (case verify_transfer src dst amt of
        Inl e \<Rightarrow> (Inl e, src, dst, d)
      | Inr _ \<Rightarrow> commit_on_success d (posting d src dst amt usr descr))"

subsection \<open>The environment of the ledger\<close>

text \<open>
  Users belong to Django's \<open>auth\<close> application. A user who changes name rewrites the
  username of the user's row. Deleting a user removes the row, and
  \<open>on_delete=models.SET_NULL\<close> on \<open>Transfer.user\<close> then clears the reference in every
  transfer row that names the user.
\<close>

definition set_username :: "db \<Rightarrow> nat \<Rightarrow> string \<Rightarrow> db" where
  "set_username d k n =
     (case users d k of
        None \<Rightarrow> d
      | Some old \<Rightarrow> d\<lparr>users := (users d)(k \<mapsto> n)\<rparr>)"

definition delete_user :: "db \<Rightarrow> nat \<Rightarrow> db" where
  "delete_user d k =
     d\<lparr>users := (users d)(k := None),
       transfers := map (\<lambda>t. if user t = Some (Key k) then t\<lparr>user := None\<rparr> else t) (transfers d)\<rparr>"

text \<open>
  The foreign key of \<open>Transaction.transfer\<close>: every transaction row belongs to a
  transfer row.
\<close>

definition referential_integrity :: "db \<Rightarrow> bool" where
  "referential_integrity d =
     list_all (\<lambda>x. list_ex (\<lambda>t. transfer_id t = Some (txn_transfer x)) (transfers d))
       (transactions d)"

subsection \<open>When a save goes through\<close>

text \<open>
  The sum of the transaction rows of an account, in hundredths, and a condition under
  which \<open>Account.save\<close> raises nothing when that sum is \<open>s\<close>: the credit limit and the
  sum fit their columns, the code is made of ASCII characters, and no other row has the
  name or the upper-cased code of the account.
\<close>

definition ledger_sum :: "db \<Rightarrow> account_object \<Rightarrow> cents" where
  "ledger_sum d a = sum_list (map txn_amount (account_transactions d a))"

definition normalised_code :: "account_object \<Rightarrow> account_object" where
  "normalised_code a =
     (case code a of None \<Rightarrow> a | Some c \<Rightarrow> if c = [] then a else a\<lparr>code := Some (upper c)\<rparr>)"

definition credit_fits :: "account_object \<Rightarrow> bool" where
  "credit_fits a =
     (case credit_limit a of
        None \<Rightarrow> True
      | Some l \<Rightarrow> \<bar>round_half_even (l * 100)\<bar> < 10 ^ 12)"

definition code_ascii :: "account_object \<Rightarrow> bool" where
  "code_ascii a = (case code a of None \<Rightarrow> True | Some c \<Rightarrow> ascii c)"

definition savable :: "db \<Rightarrow> account_object \<Rightarrow> cents \<Rightarrow> bool" where
  "savable d a s =
     (credit_fits a \<and> \<bar>s\<bar> < 10 ^ 12 \<and> code_ascii a \<and>
      \<not> unique_violation (accounts d) (normalised_code a))"

text \<open>The row that a write of the object stores when it goes through.\<close>

definition stored :: "account_object \<Rightarrow> account_row" where
  "stored a =
     \<lparr>acc_id = acc_id a, name = name a, code = code a, status = status a,
      credit_limit = map_option (\<lambda>l. round_half_even (l * 100)) (credit_limit a),
      balance = round_half_even (balance a * 100),
      start_date = start_date a, end_date = end_date a\<rparr>"

text \<open>The object that \<open>Account.save\<close> leaves, whether or not the write goes through.\<close>

definition saved :: "db \<Rightarrow> account_object \<Rightarrow> account_object" where
  "saved d a = (normalised_code a)\<lparr>balance := Account_balance d a\<rparr>"

text \<open>
  The transfer object, its row, the two transaction rows and the tables after the three
  inserts of a posting and after the two saves, for the proofs; \<open>c\<close> is the amount in
  hundredths.
\<close>

definition posted_transfer :: "db \<Rightarrow> account_object \<Rightarrow> account_object \<Rightarrow> decimal
    \<Rightarrow> auth_user option \<Rightarrow> string option \<Rightarrow> transfer_object" where
  "posted_transfer d src dst amt usr descr =
     \<lparr>transfer_id = Some (next_transfer_id d), source = acc_id src, destination = acc_id dst,
      amount = amt, description = descr, user = map_option Held usr,
      username = (case usr of None \<Rightarrow> [] | Some u \<Rightarrow> user_username u)\<rparr>"

definition posted_row :: "db \<Rightarrow> account_object \<Rightarrow> account_object \<Rightarrow> cents
    \<Rightarrow> auth_user option \<Rightarrow> string option \<Rightarrow> transfer_row" where
  "posted_row d src dst c usr descr =
     \<lparr>transfer_id = Some (next_transfer_id d), source = acc_id src, destination = acc_id dst,
      amount = c, description = descr,
      user = (case usr of None \<Rightarrow> None | Some u \<Rightarrow> map_option Key (user_id u)),
      username = (case usr of None \<Rightarrow> [] | Some u \<Rightarrow> user_username u)\<rparr>"

definition posted_rows :: "db \<Rightarrow> account_object \<Rightarrow> account_object \<Rightarrow> cents
    \<Rightarrow> transaction list" where
  "posted_rows d src dst c =
     [\<lparr>txn_transfer = next_transfer_id d, txn_account = acc_id src, txn_amount = - c\<rparr>,
      \<lparr>txn_transfer = next_transfer_id d, txn_account = acc_id dst, txn_amount = c\<rparr>]"

definition posted_tables :: "db \<Rightarrow> account_object \<Rightarrow> account_object \<Rightarrow> cents
    \<Rightarrow> auth_user option \<Rightarrow> string option \<Rightarrow> db" where
  "posted_tables d src dst c usr descr =
     d\<lparr>transfers := transfers d @ [posted_row d src dst c usr descr],
       transactions := transactions d @ posted_rows d src dst c\<rparr>"

definition posted_db :: "db \<Rightarrow> account_object \<Rightarrow> account_object \<Rightarrow> cents
    \<Rightarrow> auth_user option \<Rightarrow> string option \<Rightarrow> db" where
  "posted_db d src dst c usr descr =
     (posted_tables d src dst c usr descr)
       \<lparr>accounts :=
          upsert (stored (saved (posted_tables d src dst c usr descr) dst))
            (upsert (stored (saved (posted_tables d src dst c usr descr) src)) (accounts d))\<rparr>"

subsection \<open>A small ledger\<close>

text \<open>
  Three accounts and two posted transfers: 10.00 from the bank (no credit limit) to the
  wallet, then 3.00 from the wallet to the gift card, authorised by alice.
\<close>

definition alice :: auth_user where
  "alice = \<lparr>user_id = Some 1, user_username = ''alice''\<rparr>"

definition bank :: account_object where
  "bank = (Account 1)\<lparr>credit_limit := None, balance := - 10\<rparr>"

definition wallet :: account_object where
  "wallet = (Account 2)\<lparr>balance := 7\<rparr>"

definition giftcard :: account_object where
  "giftcard = (Account 3)\<lparr>code := Some ''GIFT-7'', balance := 3\<rparr>"

definition ledger_1 :: db where
  "ledger_1 =
     \<lparr>accounts =
        [\<lparr>acc_id = 1, name = None, code = None, status = ''Open'', credit_limit = None,
          balance = - 1000, start_date = None, end_date = None\<rparr>,
         \<lparr>acc_id = 2, name = None, code = None, status = ''Open'', credit_limit = Some 0,
          balance = 700, start_date = None, end_date = None\<rparr>,
         \<lparr>acc_id = 3, name = None, code = Some ''GIFT-7'', status = ''Open'',
          credit_limit = Some 0, balance = 300, start_date = None, end_date = None\<rparr>],
      users = [1 \<mapsto> ''alice''],
      transfers =
        [\<lparr>transfer_id = Some 1, source = 1, destination = 2, amount = 1000,
          description = None, user = None, username = []\<rparr>,
         \<lparr>transfer_id = Some 2, source = 2, destination = 3, amount = 300,
          description = Some ''refund'', user = Some (Key 1), username = ''alice''\<rparr>],
      transactions =
        [\<lparr>txn_transfer = 1, txn_account = 1, txn_amount = - 1000\<rparr>,
         \<lparr>txn_transfer = 1, txn_account = 2, txn_amount = 1000\<rparr>,
         \<lparr>txn_transfer = 2, txn_account = 2, txn_amount = - 300\<rparr>,
         \<lparr>txn_transfer = 2, txn_account = 3, txn_amount = 300\<rparr>]\<rparr>"

text \<open>
  The small ledger after a third transfer, 5.00 from the wallet to the gift card,
  authorised by alice: the Transfer object that \<open>create\<close> returns, its row and the
  tables.
\<close>

definition transfer_3 :: transfer_object where
  "transfer_3 =
     \<lparr>transfer_id = Some 3, source = 2, destination = 3, amount = 5,
      description = None, user = Some (Held alice), username = ''alice''\<rparr>"

definition row_3 :: transfer_row where
  "row_3 =
     \<lparr>transfer_id = Some 3, source = 2, destination = 3, amount = 500,
      description = None, user = Some (Key 1), username = ''alice''\<rparr>"

definition ledger_2 :: db where
  "ledger_2 =
     ledger_1
       \<lparr>accounts :=
          [\<lparr>acc_id = 1, name = None, code = None, status = ''Open'', credit_limit = None,
            balance = - 1000, start_date = None, end_date = None\<rparr>,
           \<lparr>acc_id = 2, name = None, code = None, status = ''Open'', credit_limit = Some 0,
            balance = 200, start_date = None, end_date = None\<rparr>,
           \<lparr>acc_id = 3, name = None, code = Some ''GIFT-7'', status = ''Open'',
            credit_limit = Some 0, balance = 800, start_date = None, end_date = None\<rparr>],
        transfers := transfers ledger_1 @ [row_3],
        transactions := transactions ledger_1 @
          [\<lparr>txn_transfer = 3, txn_account = 2, txn_amount = - 500\<rparr>,
           \<lparr>txn_transfer = 3, txn_account = 3, txn_amount = 500\<rparr>]\<rparr>"

lemmas ledger_eval =
  create_def verify_transfer_def is_open_def is_debit_permitted_def commit_on_success_def
  posting_def Transfer_save_def the_user_def write_transfer_def transfer_row_def
  next_transfer_id_def Transaction_create_def format_number_def round_half_even_def
  Account_save_def write_account_def account_row_def unique_violation_def shares_def
  upsert_def Account_balance_def aggregate_sum_def account_transactions_def to_python_def
  wrap_def
  ledger_1_def wallet_def giftcard_def bank_def alice_def Account_def OPEN_def CLOSED_def Let_def

section \<open>Decimal columns\<close>

lemma round_half_even_of_int: "round_half_even (of_int k) = k"
proof -
  have "\<bar>(of_int k :: rat)\<bar> = of_int \<bar>k\<bar>" by simp
  then have "round_half_even (of_int k) = (if k < 0 then - \<bar>k\<bar> else \<bar>k\<bar>)"
    unfolding round_half_even_def Let_def by (simp del: of_int_abs)
  then show ?thesis by simp
qed

lemma round_half_even_minus: "round_half_even (- x) = - round_half_even x"
  by (cases "x = 0") (auto simp: round_half_even_def Let_def)

lemma format_number_to_python:
  "format_number (to_python c) = (if \<bar>c\<bar> < 10 ^ 12 then Inr c else Inl InvalidOperation)"
  by (simp add: format_number_def to_python_def round_half_even_of_int)

lemma format_number_minus:
  "format_number (- x) = (case format_number x of Inl e \<Rightarrow> Inl e | Inr c \<Rightarrow> Inr (- c))"
  by (simp add: format_number_def Let_def round_half_even_minus)

lemma format_number_exact:
  assumes "format_number x = Inr c"
  shows "\<bar>c\<bar> < 10 ^ 12" and "format_number (- x) = Inr (- c)"
  using assms by (auto simp: format_number_minus) (auto simp: format_number_def Let_def split: if_splits)

lemma format_number_examples:
  "format_number 5 = Inr 500"
  "format_number (1 / 1000) = Inr 0"
  "format_number (15 / 1000) = Inr 2"
  "format_number (999999999999 / 100) = Inr 999999999999"
  "format_number 10000000000 = Inl InvalidOperation"
  by code_simp+

section \<open>Properties of Account\<close>

subsection \<open>Balance and save\<close>

lemma Account_balance_sum: "Account_balance d a = to_python (ledger_sum d a)"
  by (simp add: Account_balance_def aggregate_sum_def ledger_sum_def to_python_def)

lemma ledger_sum_cong:
  "transactions d = transactions d' \<Longrightarrow> acc_id a = acc_id a' \<Longrightarrow> ledger_sum d a = ledger_sum d' a'"
  by (simp add: ledger_sum_def account_transactions_def)

lemma Account_balance_cong:
  "transactions d = transactions d' \<Longrightarrow> acc_id a = acc_id a' \<Longrightarrow>
   Account_balance d a = Account_balance d' a'"
  by (simp add: Account_balance_def account_transactions_def)

lemma of_char_upper_char:
  "\<not> (97 \<le> (of_char (upper_char c) :: nat) \<and> (of_char (upper_char c) :: nat) \<le> 122)"
proof (cases "97 \<le> (of_char c :: nat) \<and> (of_char c :: nat) \<le> 122")
  case True
  then have "(of_char (upper_char c) :: nat) = (of_char c - 32) mod 256"
    by (simp add: upper_char_def Let_def)
  with True show ?thesis by auto
next
  case False
  then have "upper_char c = c" by (auto simp: upper_char_def Let_def)
  with False show ?thesis by simp
qed

lemma upper_char_idem: "upper_char (upper_char c) = upper_char c"
  using of_char_upper_char [of c] by (auto simp: upper_char_def [of "upper_char c"] Let_def)

lemma normalised_code_fields:
  "acc_id (normalised_code a) = acc_id a"
  "name (normalised_code a) = name a"
  "status (normalised_code a) = status a"
  "credit_limit (normalised_code a) = credit_limit a"
  "balance (normalised_code a) = balance a"
  by (simp_all add: normalised_code_def split: option.split)

lemma normalised_code_idem: "normalised_code (normalised_code a) = normalised_code a"
  by (simp add: normalised_code_def upper_def upper_char_idem split: option.split)

lemma normalised_code_update:
  "normalised_code (a\<lparr>balance := b\<rparr>) = (normalised_code a)\<lparr>balance := b\<rparr>"
  "normalised_code (a\<lparr>status := s\<rparr>) = (normalised_code a)\<lparr>status := s\<rparr>"
  by (simp_all add: normalised_code_def split: option.split)

lemma account_row_stored:
  "account_row a =
     (if credit_fits a \<and> \<bar>round_half_even (balance a * 100)\<bar> < 10 ^ 12 then Inr (stored a)
      else Inl InvalidOperation)"
proof (cases "credit_limit a")
  case None
  then show ?thesis
    by (simp add: account_row_def credit_fits_def stored_def format_number_def Let_def)
next
  case (Some l)
  then show ?thesis
    by (simp add: account_row_def credit_fits_def stored_def format_number_def Let_def)
qed

lemma Account_save_eq:
  "Account_save d a =
     (case write_account d ((normalised_code a)\<lparr>balance := Account_balance d a\<rparr>) of
        Inl e \<Rightarrow> (Inl e, (normalised_code a)\<lparr>balance := Account_balance d a\<rparr>, d)
      | Inr d' \<Rightarrow> (Inr (), (normalised_code a)\<lparr>balance := Account_balance d a\<rparr>, d'))"
proof -
  have "Account_balance d (normalised_code a) = Account_balance d a"
    by (rule Account_balance_cong) (simp_all add: normalised_code_fields)
  then show ?thesis
    by (simp add: Account_save_def Let_def normalised_code_def [symmetric] split: sum.split)
qed

lemma unique_violation_cong:
  "acc_id a = acc_id b \<Longrightarrow> name a = name b \<Longrightarrow> code a = code b \<Longrightarrow>
   unique_violation rows a = unique_violation rows b"
  by (simp add: unique_violation_def shares_def)

lemma stored_fields:
  "acc_id (stored a) = acc_id a" "name (stored a) = name a" "code (stored a) = code a"
  "status (stored a) = status a"
  by (simp_all add: stored_def)

lemma write_account_eq:
  "write_account d a =
     (if \<not> (credit_fits a \<and> \<bar>round_half_even (balance a * 100)\<bar> < 10 ^ 12)
      then Inl InvalidOperation
      else if unique_violation (accounts d) a then Inl IntegrityError
      else Inr (d\<lparr>accounts := upsert (stored a) (accounts d)\<rparr>))"
  using unique_violation_cong [of "stored a" a "accounts d"]
  by (simp add: write_account_def account_row_stored stored_fields)

lemma find_append_if:
  "find P (xs @ ys) = (case find P xs of None \<Rightarrow> find P ys | Some x \<Rightarrow> Some x)"
  by (induction xs) auto

lemma map_replace_none:
  "\<not> list_ex (\<lambda>x. acc_id x = k) rows \<Longrightarrow> map (\<lambda>x. if acc_id x = k then r else x) rows = rows"
  by (induction rows) auto

lemma find_upsert:
  "find (\<lambda>x. acc_id x = acc_id r) (upsert r rows) = Some r"
proof (cases "list_ex (\<lambda>x. acc_id x = acc_id r) rows")
  case True
  then show ?thesis
    by (induction rows) (auto simp: upsert_def)
next
  case False
  then have "find (\<lambda>x. acc_id x = acc_id r) rows = None"
    by (auto simp: find_None_iff list_ex_iff)
  with False show ?thesis by (simp add: upsert_def find_append_if)
qed

lemma upsert_idem: "upsert r (upsert r rows) = upsert r rows"
proof (cases "list_ex (\<lambda>x. acc_id x = acc_id r) rows")
  case True
  then have e: "list_ex (\<lambda>x. acc_id x = acc_id r) (map (\<lambda>x. if acc_id x = acc_id r then r else x) rows)"
    by (auto simp: list_ex_iff)
  show ?thesis using True e by (simp add: upsert_def comp_def cong: map_cong)
next
  case False
  then show ?thesis by (simp add: upsert_def map_replace_none)
qed

lemma set_upsert: "set (upsert r rows) \<subseteq> insert r (set rows)"
  by (auto simp: upsert_def)

lemma unique_violation_upsert_self:
  "acc_id b = acc_id r \<Longrightarrow> unique_violation (upsert r rows) b = unique_violation rows b"
  by (auto simp: unique_violation_def upsert_def list_ex_iff)

lemma unique_violation_upsert_other:
  assumes "\<not> unique_violation rows b" and "\<not> shares r b"
  shows "\<not> unique_violation (upsert r rows) b"
  using assms set_upsert [of r rows] by (auto simp: unique_violation_def list_ex_iff)

lemma Account_save_saved:
  "Account_save d a =
     (case write_account d (saved d a) of
        Inl e \<Rightarrow> (Inl e, saved d a, d)
      | Inr d' \<Rightarrow> (Inr (), saved d a, d'))"
  unfolding saved_def by (rule Account_save_eq)

lemma saved_fields:
  "acc_id (saved d a) = acc_id a"
  "name (saved d a) = name a"
  "code (saved d a) = code (normalised_code a)"
  "status (saved d a) = status a"
  "credit_limit (saved d a) = credit_limit a"
  "balance (saved d a) = to_python (ledger_sum d a)"
  by (simp_all add: saved_def normalised_code_fields Account_balance_sum)

lemma balance_cents_saved:
  "round_half_even (balance (saved d a) * 100) = ledger_sum d a"
  by (simp add: saved_fields to_python_def round_half_even_of_int)

lemma credit_fits_saved: "credit_fits (saved d a) = credit_fits a"
  by (simp add: credit_fits_def saved_fields)

lemma unique_violation_saved:
  "unique_violation rows (saved d a) = unique_violation rows (normalised_code a)"
  by (rule unique_violation_cong) (simp_all add: saved_fields normalised_code_fields)

lemma write_account_saved:
  "write_account d (saved d a) =
     (if \<not> (credit_fits a \<and> \<bar>ledger_sum d a\<bar> < 10 ^ 12) then Inl InvalidOperation
      else if unique_violation (accounts d) (normalised_code a) then Inl IntegrityError
      else Inr (d\<lparr>accounts := upsert (stored (saved d a)) (accounts d)\<rparr>))"
  by (simp add: write_account_eq balance_cents_saved credit_fits_saved unique_violation_saved)

lemma Account_save_cases:
  "Account_save d a =
     (if \<not> (credit_fits a \<and> \<bar>ledger_sum d a\<bar> < 10 ^ 12) then (Inl InvalidOperation, saved d a, d)
      else if unique_violation (accounts d) (normalised_code a)
      then (Inl IntegrityError, saved d a, d)
      else (Inr (), saved d a, d\<lparr>accounts := upsert (stored (saved d a)) (accounts d)\<rparr>))"
  by (simp add: Account_save_saved write_account_saved)

lemma account_row_saved:
  assumes "credit_fits a" and "\<bar>ledger_sum d a\<bar> < 10 ^ 12"
  shows "account_row (saved d a) = Inr (stored (saved d a))"
  using assms by (simp add: account_row_stored credit_fits_saved balance_cents_saved)

lemma Account_save_object: "fst (snd (Account_save d a)) = saved d a"
  by (simp add: Account_save_cases)

lemma Account_save_tables:
  "transactions (snd (snd (Account_save d a))) = transactions d"
  "transfers (snd (snd (Account_save d a))) = transfers d"
  "users (snd (snd (Account_save d a))) = users d"
  by (simp_all add: Account_save_cases)

lemma Account_save_savable:
  assumes "savable d a (ledger_sum d a)"
  shows "Account_save d a =
           (Inr (), saved d a, d\<lparr>accounts := upsert (stored (saved d a)) (accounts d)\<rparr>)"
  using assms by (simp add: Account_save_cases savable_def)

lemma saved_saved:
  assumes "transactions d' = transactions d"
  shows "saved d' (saved d a) = saved d a"
proof -
  have "Account_balance d' (saved d a) = Account_balance d a"
    by (rule Account_balance_cong) (simp_all add: assms saved_fields)
  then show ?thesis
    by (simp add: saved_def normalised_code_update normalised_code_idem)
qed

lemma saved_balance_update: "saved d (a\<lparr>balance := b\<rparr>) = saved d a"
proof -
  have "Account_balance d (a\<lparr>balance := b\<rparr>) = Account_balance d a"
    by (rule Account_balance_cong) simp_all
  then show ?thesis by (simp add: saved_def normalised_code_update)
qed

lemma Account_save_balance_update: "Account_save d (a\<lparr>balance := b\<rparr>) = Account_save d a"
proof -
  have 1: "ledger_sum d (a\<lparr>balance := b\<rparr>) = ledger_sum d a"
    by (rule ledger_sum_cong) simp_all
  have 2: "credit_fits (a\<lparr>balance := b\<rparr>) = credit_fits a" by (simp add: credit_fits_def)
  have 3: "unique_violation (accounts d) (normalised_code (a\<lparr>balance := b\<rparr>)) =
           unique_violation (accounts d) (normalised_code a)"
    by (rule unique_violation_cong) (simp_all add: normalised_code_update)
  show ?thesis by (simp add: Account_save_cases 1 2 3 saved_balance_update)
qed

lemma Account_save_again:
  assumes "Account_save d a = (r, a', d')"
  shows "Account_save d' a' = (r, a', d')"
proof -
  from assms have a': "a' = saved d a" by (auto simp: Account_save_cases split: if_splits)
  from assms have tx: "transactions d' = transactions d"
    using Account_save_tables(1) [of d a] by simp
  have s: "saved d' a' = a'" by (simp add: a' saved_saved [OF tx])
  have l: "ledger_sum d' a' = ledger_sum d a"
    by (rule ledger_sum_cong) (simp_all add: tx a' saved_fields)
  have c: "credit_fits a' = credit_fits a" by (simp add: a' credit_fits_saved)
  have n: "normalised_code a' = (normalised_code a)\<lparr>balance := balance a'\<rparr>"
    by (simp add: a' saved_def normalised_code_update normalised_code_idem)
  have u: "unique_violation rows (normalised_code a') = unique_violation rows (normalised_code a)" for rows
    by (rule unique_violation_cong) (simp_all add: n)
  show ?thesis
  proof (cases "r = Inr ()")
    case True
    with assms have ok: "credit_fits a \<and> \<bar>ledger_sum d a\<bar> < 10 ^ 12"
      and nv: "\<not> unique_violation (accounts d) (normalised_code a)"
      and d': "d' = d\<lparr>accounts := upsert (stored a') (accounts d)\<rparr>"
      by (auto simp: Account_save_cases a' split: if_splits)
    have id: "acc_id (normalised_code a) = acc_id (stored a')"
      by (simp add: stored_fields a' saved_fields normalised_code_fields)
    have nv': "\<not> unique_violation (accounts d') (normalised_code a)"
      using nv by (simp add: d' unique_violation_upsert_self [OF id])
    show ?thesis
      using True ok nv'
      by (simp add: Account_save_cases [of d' a'] s l c u) (simp add: d' upsert_idem)
  next
    case False
    with assms have d': "d' = d" by (auto simp: Account_save_cases split: if_splits)
    from assms False show ?thesis
      by (simp add: Account_save_cases [of d' a'] s l c u)
         (auto simp: d' Account_save_cases a' split: if_splits)
  qed
qed

text \<open>
  Claim C2. Saving an account sets the cached balance of the object to the sum of the
  amounts of the transaction rows that reference the account, which is 0.00 when there is
  none, and writes the row, whose balance is that sum. The value does not depend on the
  balance the object held before (it is recomputed, not incremented), and without a new
  transaction row in between, reading the balance again or saving again returns the same
  value. When the write raises, the object carries the recomputed balance all the same
  and the tables are as they were.
\<close>

theorem save_recomputes_balance:
  assumes "Account_save d a = (r, a', d')"
  shows "balance a' = to_python (sum_list (map txn_amount (account_transactions d a))) \<and>
         (account_transactions d a = [] \<longrightarrow> balance a' = 0) \<and>
         transactions d' = transactions d \<and>
         Account_save d (a\<lparr>balance := b\<rparr>) = (r, a', d') \<and>
         Account_balance d' a' = balance a' \<and>
         Account_save d' a' = (r, a', d') \<and>
         (r = Inr () \<longrightarrow>
            (\<exists>row. find_account d' (acc_id a) = Some row \<and> account_row a' = Inr row \<and>
                   balance row = sum_list (map txn_amount (account_transactions d a)))) \<and>
         (r \<noteq> Inr () \<longrightarrow> d' = d)"
proof -
  from assms have a': "a' = saved d a" by (auto simp: Account_save_cases split: if_splits)
  from assms have tx: "transactions d' = transactions d"
    using Account_save_tables(1) [of d a] by simp
  have b1: "balance a' = to_python (sum_list (map txn_amount (account_transactions d a)))"
    by (simp add: a' saved_fields ledger_sum_def)
  have b2: "account_transactions d a = [] \<longrightarrow> balance a' = 0"
    by (simp add: b1 to_python_def)
  have b3: "Account_save d (a\<lparr>balance := b\<rparr>) = (r, a', d')"
    by (simp add: Account_save_balance_update assms)
  have b4: "Account_balance d' a' = balance a'"
  proof -
    have "Account_balance d' a' = Account_balance d a"
      by (rule Account_balance_cong) (simp_all add: tx a' saved_fields)
    then show ?thesis by (simp add: a' saved_fields Account_balance_sum)
  qed
  have b5: "Account_save d' a' = (r, a', d')" by (rule Account_save_again [OF assms])
  have b6: "r = Inr () \<longrightarrow>
            (\<exists>row. find_account d' (acc_id a) = Some row \<and> account_row a' = Inr row \<and>
                   balance row = sum_list (map txn_amount (account_transactions d a)))"
  proof
    assume "r = Inr ()"
    with assms have d': "d' = d\<lparr>accounts := upsert (stored a') (accounts d)\<rparr>"
      and fits: "credit_fits a" "\<bar>ledger_sum d a\<bar> < 10 ^ 12"
      by (auto simp: Account_save_cases a' split: if_splits)
    have "find_account d' (acc_id (stored a')) = Some (stored a')"
      by (simp add: find_account_def d' find_upsert)
    moreover have "balance (stored a') = ledger_sum d a"
      by (simp add: stored_def a' balance_cents_saved)
    moreover have "account_row a' = Inr (stored a')"
      unfolding a' by (rule account_row_saved [OF fits])
    ultimately show "\<exists>row. find_account d' (acc_id a) = Some row \<and> account_row a' = Inr row \<and>
                   balance row = sum_list (map txn_amount (account_transactions d a))"
      by (simp add: stored_fields a' saved_fields ledger_sum_def)
  qed
  have b7: "r \<noteq> Inr () \<longrightarrow> d' = d"
    using assms by (auto simp: Account_save_cases split: if_splits)
  show ?thesis using b1 b2 tx b3 b4 b5 b6 b7 by blast
qed

theorem save_recomputes_balance_witness:
  "balance (fst (snd (Account_save ledger_1 (wallet\<lparr>balance := 5\<rparr>)))) = 7 \<and>
   Account_save ledger_1 wallet = Account_save ledger_1 (wallet\<lparr>balance := 5\<rparr>)"
  using save_recomputes_balance [of ledger_1 "wallet\<lparr>balance := 5\<rparr>"
      "fst (Account_save ledger_1 (wallet\<lparr>balance := 5\<rparr>))"
      "fst (snd (Account_save ledger_1 (wallet\<lparr>balance := 5\<rparr>)))"
      "snd (snd (Account_save ledger_1 (wallet\<lparr>balance := 5\<rparr>)))" 7]
  by (simp add: ledger_1_def account_transactions_def wallet_def Account_def to_python_def)

subsection \<open>Evaluating the small ledger\<close>

lemma upper_examples:
  "upper ''GIFT-7'' = ''GIFT-7''" "upper ''gift-7'' = ''GIFT-7''"
  by code_simp+

lemma create_ledger_1:
  "create ledger_1 wallet giftcard 5 (Some alice) None =
     (Inr transfer_3, wallet\<lparr>balance := 2\<rparr>, giftcard\<lparr>balance := 8\<rparr>, ledger_2)"
  by (simp add: ledger_eval upper_examples transfer_3_def row_3_def ledger_2_def)

text \<open>A save that runs into the code of another account.\<close>

lemma close_collision:
  "close ledger_1 (bank\<lparr>code := Some ''gift-7''\<rparr>) =
     (Inl IntegrityError, bank\<lparr>code := Some ''GIFT-7'', status := CLOSED\<rparr>, ledger_1)"
  by (simp add: close_def ledger_eval upper_examples)

text \<open>
  A save inside a posting can raise: 9999999999.00 from the bank to the wallet passes
  the checks, but the new balance of the bank has thirteen digits. The posting is rolled
  back; the object of the bank keeps the recomputed balance.
\<close>

lemma create_overflow:
  "create ledger_1 bank wallet 9999999999 None None =
     (Inl InvalidOperation, bank\<lparr>balance := - 10000000009\<rparr>, wallet, ledger_1)"
  by (simp add: ledger_eval)

lemma ledger_1_facts:
  "referential_integrity ledger_1"
  "is_open wallet" "is_open giftcard" "is_open bank"
  "acc_id wallet = 2" "acc_id giftcard = 3" "acc_id bank = 1"
  by (simp_all add: referential_integrity_def ledger_1_def is_open_def wallet_def giftcard_def
      bank_def Account_def)

section \<open>Properties of PostingManager\<close>

subsection \<open>Posting\<close>

lemma foldr_max_ge: "x \<in> set xs \<Longrightarrow> x \<le> foldr max xs (0::nat)"
  by (induction xs) auto

lemma next_transfer_id_fresh:
  assumes "t \<in> set (transfers d)" and "transfer_id t = Some n"
  shows "n < next_transfer_id d"
proof -
  let ?key = "\<lambda>t. case transfer_id t of None \<Rightarrow> 0 | Some n \<Rightarrow> n"
  from assms have "n \<in> set (map ?key (transfers d))" by force
  then have "n \<le> foldr max (map ?key (transfers d)) 0" by (rule foldr_max_ge)
  then show ?thesis by (simp add: next_transfer_id_def)
qed

lemma no_transaction_of_next_transfer:
  assumes "referential_integrity d" and "x \<in> set (transactions d)"
  shows "txn_transfer x \<noteq> next_transfer_id d"
proof -
  from assms obtain t where "t \<in> set (transfers d)" and "transfer_id t = Some (txn_transfer x)"
    by (auto simp: referential_integrity_def list_all_iff list_ex_iff)
  then have "txn_transfer x < next_transfer_id d" by (rule next_transfer_id_fresh)
  then show ?thesis by simp
qed

lemma Transfer_save_new:
  assumes "format_number amt = Inr c"
  shows "Transfer_save d \<lparr>transfer_id = None, source = acc_id src, destination = acc_id dst,
                          amount = amt, description = descr, user = map_option Held usr,
                          username = []\<rparr> =
           (Inr (), posted_transfer d src dst amt usr descr,
            d\<lparr>transfers := transfers d @ [posted_row d src dst c usr descr]\<rparr>)"
  using assms
  by (cases usr)
    (simp_all add: Transfer_save_def the_user_def write_transfer_def transfer_row_def Let_def
       posted_transfer_def posted_row_def)

lemma Transfer_save_overflow:
  assumes "format_number amt = Inl e"
  shows "fst (Transfer_save d \<lparr>transfer_id = None, source = s, destination = t,
                          amount = amt, description = descr, user = map_option Held usr,
                          username = []\<rparr>) = Inl e"
  using assms
  by (cases usr)
    (simp_all add: Transfer_save_def the_user_def write_transfer_def transfer_row_def Let_def)

lemma shares_cong:
  "name r = name r' \<Longrightarrow> code r = code r' \<Longrightarrow> name b = name b' \<Longrightarrow> code b = code b' \<Longrightarrow>
   shares r b = shares r' b'"
  by (simp add: shares_def)

lemma ledger_sum_posted:
  assumes "acc_id src \<noteq> acc_id dst"
  shows "ledger_sum (posted_tables d src dst c usr descr) src = ledger_sum d src - c"
    and "ledger_sum (posted_tables d src dst c usr descr) dst = ledger_sum d dst + c"
  using assms
  by (auto simp: ledger_sum_def account_transactions_def posted_tables_def posted_rows_def)

lemma to_python_arith:
  "to_python (a - b) = to_python a - to_python b"
  "to_python (a + b) = to_python a + to_python b"
  by (simp_all add: to_python_def diff_divide_distrib add_divide_distrib)

lemma posting_ok:
  assumes distinct: "acc_id src \<noteq> acc_id dst"
    and ri: "referential_integrity d"
    and amt: "format_number amt = Inr c"
    and s1: "savable d src (ledger_sum d src - c)"
    and s2: "savable d dst (ledger_sum d dst + c)"
    and apart: "\<not> shares (normalised_code src) (normalised_code dst)"
  shows "posting d src dst amt usr descr =
           (Inr (posted_transfer d src dst amt usr descr),
            saved (posted_tables d src dst c usr descr) src,
            saved (posted_tables d src dst c usr descr) dst,
            posted_db d src dst c usr descr)"
proof -
  let ?t = "posted_transfer d src dst amt usr descr"
  let ?da = "d\<lparr>transfers := transfers d @ [posted_row d src dst c usr descr]\<rparr>"
  let ?xa = "\<lparr>txn_transfer = next_transfer_id d, txn_account = acc_id src, txn_amount = - c\<rparr>"
  let ?db = "?da\<lparr>transactions := transactions d @ [?xa]\<rparr>"
  let ?dc = "posted_tables d src dst c usr descr"
  let ?src = "saved ?dc src"
  let ?dd = "?dc\<lparr>accounts := upsert (stored ?src) (accounts d)\<rparr>"
  let ?dst = "saved ?dc dst"
  note st1 = Transfer_save_new [OF amt, of d src dst descr usr]
  have tid: "transfer_id ?t = Some (next_transfer_id d)" by (simp add: posted_transfer_def)
  have fresh: "\<not> list_ex (\<lambda>y. txn_transfer y = next_transfer_id d \<and> txn_account y = a)
                   (transactions d)" for a
    using no_transaction_of_next_transfer [OF ri] by (auto simp: list_ex_iff)
  have st2: "Transaction_create ?da (next_transfer_id d) (acc_id src) (- amt) = Inr ?db"
    using fresh by (simp add: Transaction_create_def format_number_exact(2) [OF amt])
  have st3: "Transaction_create ?db (next_transfer_id d) (acc_id dst) amt = Inr ?dc"
    using fresh distinct
    by (simp add: Transaction_create_def amt posted_tables_def posted_rows_def)
  have acc: "accounts ?dc = accounts d" by (simp add: posted_tables_def)
  have "savable ?dc src (ledger_sum ?dc src)"
    using s1 by (simp add: savable_def acc ledger_sum_posted [OF distinct])
  then have st4: "Account_save ?dc src = (Inr (), ?src, ?dd)"
    by (simp add: Account_save_savable acc)
  have tx: "transactions ?dd = transactions ?dc" by simp
  have ls: "ledger_sum ?dd dst = ledger_sum ?dc dst"
    by (rule ledger_sum_cong) simp_all
  have sv: "saved ?dd dst = ?dst"
  proof -
    have "Account_balance ?dd dst = Account_balance ?dc dst"
      by (rule Account_balance_cong) simp_all
    then show ?thesis by (simp add: saved_def)
  qed
  have sh: "\<not> shares (stored ?src) (normalised_code dst)"
    using apart
    by (simp add: shares_cong [of "stored ?src" "normalised_code src" "normalised_code dst"
          "normalised_code dst"] stored_fields saved_fields normalised_code_fields)
  have "\<not> unique_violation (accounts d) (normalised_code dst)"
    using s2 by (simp add: savable_def)
  then have "\<not> unique_violation (upsert (stored ?src) (accounts d)) (normalised_code dst)"
    using sh by (rule unique_violation_upsert_other)
  then have "savable ?dd dst (ledger_sum ?dd dst)"
    using s2 by (simp add: savable_def ls ledger_sum_posted [OF distinct])
  then have st5: "Account_save ?dd dst = (Inr (), ?dst, posted_db d src dst c usr descr)"
    by (simp add: Account_save_savable sv posted_db_def)
  show ?thesis
    by (simp add: posting_def st1 tid st2 st3 st4 st5 wrap_def)
qed

lemma create_ok:
  assumes "is_open src" and "is_open dst" and "0 < amt" and "is_debit_permitted src amt"
    and "acc_id src \<noteq> acc_id dst" and "referential_integrity d"
    and "format_number amt = Inr c"
    and "savable d src (ledger_sum d src - c)"
    and "savable d dst (ledger_sum d dst + c)"
    and "\<not> shares (normalised_code src) (normalised_code dst)"
  shows "create d src dst amt usr descr =
           (Inr (posted_transfer d src dst amt usr descr),
            saved (posted_tables d src dst c usr descr) src,
            saved (posted_tables d src dst c usr descr) dst,
            posted_db d src dst c usr descr)"
proof -
  have "verify_transfer src dst amt = Inr ()"
    using assms(1-4) by (simp add: verify_transfer_def)
  then show ?thesis
    by (simp add: create_def commit_on_success_def posting_ok [OF assms(5-10)])
qed

lemma find_upsert_other:
  "k \<noteq> acc_id r \<Longrightarrow> find (\<lambda>x. acc_id x = k) (upsert r rows) = find (\<lambda>x. acc_id x = k) rows"
proof (cases "list_ex (\<lambda>x. acc_id x = acc_id r) rows")
  case True
  assume "k \<noteq> acc_id r"
  then have "find (\<lambda>x. acc_id x = k) (map (\<lambda>x. if acc_id x = acc_id r then r else x) rows) =
             find (\<lambda>x. acc_id x = k) rows"
    by (induction rows) auto
  with True show ?thesis by (simp add: upsert_def)
next
  case False
  assume "k \<noteq> acc_id r"
  with False show ?thesis by (simp add: upsert_def find_append_if split: option.split)
qed

text \<open>
  Claim C1, as amended. Let the source and the destination be open accounts with
  different primary keys; let the amount be positive, a whole number of hundredths of at
  most twelve digits, and its debit from the source permitted; let every transaction row
  belong to a transfer row; and let both saves be able to go through: for each account
  the credit limit and the new sum of its transaction rows fit their columns, its code
  is ASCII and no other row has its name or its upper-cased code, and the two accounts
  share neither a name nor a code. Then \<open>create(source, destination, amount)\<close> returns
  the transfer it has inserted, the only new transfer row; it inserts exactly two
  transaction rows, both of this transfer: the source's with the negated amount and the
  destination's with the amount, which sum to 0; and it saves both accounts, whose rows
  and objects carry the balances recomputed from the transaction rows, the amount less
  for the source and the amount more for the destination.
\<close>

theorem create_posts_transfer:
  assumes "is_open src" and "is_open dst" and "0 < amt" and "is_debit_permitted src amt"
    and "acc_id src \<noteq> acc_id dst" and "referential_integrity d"
    and "format_number amt = Inr c" and "to_python c = amt"
    and "savable d src (ledger_sum d src - c)"
    and "savable d dst (ledger_sum d dst + c)"
    and "\<not> shares (normalised_code src) (normalised_code dst)"
  shows "\<exists>t row tid src' dst' d' rs rd.
           create d src dst amt None None = (Inr t, src', dst', d') \<and>
           transfers d' = transfers d @ [row] \<and> read_transfer row = t \<and>
           transfer_id t = Some tid \<and> source t = acc_id src \<and> destination t = acc_id dst \<and>
           amount t = amt \<and>
           transactions d' = transactions d @
             [\<lparr>txn_transfer = tid, txn_account = acc_id src, txn_amount = - c\<rparr>,
              \<lparr>txn_transfer = tid, txn_account = acc_id dst, txn_amount = c\<rparr>] \<and>
           filter (\<lambda>x. txn_transfer x = tid) (transactions d') =
             [\<lparr>txn_transfer = tid, txn_account = acc_id src, txn_amount = - c\<rparr>,
              \<lparr>txn_transfer = tid, txn_account = acc_id dst, txn_amount = c\<rparr>] \<and>
           sum_list (map txn_amount (filter (\<lambda>x. txn_transfer x = tid) (transactions d'))) = 0 \<and>
           find_account d' (acc_id src) = Some rs \<and> find_account d' (acc_id dst) = Some rd \<and>
           account_row src' = Inr rs \<and> account_row dst' = Inr rd \<and>
           to_python (balance rs) = balance src' \<and> to_python (balance rd) = balance dst' \<and>
           balance src' = Account_balance d' src \<and> balance dst' = Account_balance d' dst \<and>
           balance src' = Account_balance d src - amt \<and>
           balance dst' = Account_balance d dst + amt"
proof -
  let ?t = "posted_transfer d src dst amt None None"
  let ?row = "posted_row d src dst c None None"
  let ?dc = "posted_tables d src dst c None None"
  let ?src = "saved ?dc src"
  let ?dst = "saved ?dc dst"
  let ?de = "posted_db d src dst c None None"
  let ?tid = "next_transfer_id d"
  have c: "create d src dst amt None None = (Inr ?t, ?src, ?dst, ?de)"
    by (rule create_ok [OF assms(1-7) assms(9-11)])
  have tf: "transfers ?de = transfers d @ [?row]"
    by (simp add: posted_db_def posted_tables_def)
  have rd: "read_transfer ?row = ?t"
    by (simp add: read_transfer_def posted_row_def posted_transfer_def assms(8))
  have tx: "transactions ?de = transactions d @ posted_rows d src dst c"
    by (simp add: posted_db_def posted_tables_def)
  have none: "filter (\<lambda>x. txn_transfer x = ?tid) (transactions d) = []"
    using no_transaction_of_next_transfer [OF assms(6)] by (auto simp: filter_empty_conv)
  have fl: "filter (\<lambda>x. txn_transfer x = ?tid) (transactions ?de) = posted_rows d src dst c"
    by (simp add: tx none) (simp add: posted_rows_def)
  have a1: "find_account ?de (acc_id src) = Some (stored ?src)"
  proof -
    have "acc_id src \<noteq> acc_id (stored ?dst)"
      using assms(5) by (simp add: stored_fields saved_fields)
    then have "find_account ?de (acc_id src) =
               find (\<lambda>x. acc_id x = acc_id src) (upsert (stored ?src) (accounts d))"
      by (simp add: find_account_def posted_db_def find_upsert_other)
    also have "\<dots> = Some (stored ?src)"
      using find_upsert [of "stored ?src" "accounts d"] by (simp add: stored_fields saved_fields)
    finally show ?thesis .
  qed
  have a2: "find_account ?de (acc_id dst) = Some (stored ?dst)"
    using find_upsert [of "stored ?dst" "upsert (stored ?src) (accounts d)"]
    by (simp add: find_account_def posted_db_def stored_fields saved_fields)
  have "balance (stored ?src) = ledger_sum ?dc src"
    by (simp add: stored_def balance_cents_saved)
  then have r1: "to_python (balance (stored ?src)) = balance ?src"
    by (simp add: saved_fields)
  have "balance (stored ?dst) = ledger_sum ?dc dst"
    by (simp add: stored_def balance_cents_saved)
  then have r2: "to_python (balance (stored ?dst)) = balance ?dst"
    by (simp add: saved_fields)
  have e1: "Account_balance ?de src = balance ?src"
  proof -
    have "Account_balance ?de src = Account_balance ?dc src"
      by (rule Account_balance_cong) (simp_all add: posted_db_def)
    then show ?thesis by (simp add: saved_fields Account_balance_sum)
  qed
  have e2: "Account_balance ?de dst = balance ?dst"
  proof -
    have "Account_balance ?de dst = Account_balance ?dc dst"
      by (rule Account_balance_cong) (simp_all add: posted_db_def)
    then show ?thesis by (simp add: saved_fields Account_balance_sum)
  qed
  have n1: "balance ?src = Account_balance d src - amt"
    by (simp add: saved_fields ledger_sum_posted [OF assms(5)] to_python_arith
        Account_balance_sum assms(8))
  have n2: "balance ?dst = Account_balance d dst + amt"
    by (simp add: saved_fields ledger_sum_posted [OF assms(5)] to_python_arith
        Account_balance_sum assms(8))
  have t: "transfer_id ?t = Some ?tid \<and> source ?t = acc_id src \<and>
           destination ?t = acc_id dst \<and> amount ?t = amt"
    by (simp add: posted_transfer_def)
  have w1: "account_row ?src = Inr (stored ?src)"
    using assms(9)
    by (intro account_row_saved) (simp_all add: savable_def ledger_sum_posted [OF assms(5)])
  have w2: "account_row ?dst = Inr (stored ?dst)"
    using assms(10)
    by (intro account_row_saved) (simp_all add: savable_def ledger_sum_posted [OF assms(5)])
  show ?thesis
    apply (rule exI [of _ ?t])
    apply (rule exI [of _ ?row])
    apply (rule exI [of _ ?tid])
    apply (rule exI [of _ ?src])
    apply (rule exI [of _ ?dst])
    apply (rule exI [of _ ?de])
    apply (rule exI [of _ "stored ?src"])
    apply (rule exI [of _ "stored ?dst"])
    using c tf rd tx fl a1 a2 w1 w2 r1 r2 e1 e2 n1 n2 t
    apply (simp add: posted_rows_def)
    done
qed

lemma savable_ledger_1:
  "\<bar>s\<bar> < 10 ^ 12 \<Longrightarrow> savable ledger_1 wallet s"
  "\<bar>s\<bar> < 10 ^ 12 \<Longrightarrow> savable ledger_1 giftcard s"
  "\<bar>s\<bar> < 10 ^ 12 \<Longrightarrow> savable ledger_1 bank s"
  by (simp_all add: savable_def credit_fits_def code_ascii_def ascii_def normalised_code_def
      upper_examples unique_violation_def shares_def round_half_even_def
      ledger_1_def wallet_def giftcard_def bank_def Account_def)

lemma ledger_sum_ledger_1:
  "ledger_sum ledger_1 wallet = 700" "ledger_sum ledger_1 giftcard = 300"
  "ledger_sum ledger_1 bank = - 1000"
  by (simp_all add: ledger_sum_def account_transactions_def ledger_1_def wallet_def giftcard_def
      bank_def Account_def)

theorem create_posts_transfer_witness:
  "is_open wallet \<and> is_open giftcard \<and> (0::rat) < 5 \<and> is_debit_permitted wallet 5 \<and>
   acc_id wallet \<noteq> acc_id giftcard \<and> referential_integrity ledger_1 \<and>
   format_number 5 = Inr 500 \<and> to_python 500 = 5 \<and>
   savable ledger_1 wallet (ledger_sum ledger_1 wallet - 500) \<and>
   savable ledger_1 giftcard (ledger_sum ledger_1 giftcard + 500) \<and>
   \<not> shares (normalised_code wallet) (normalised_code giftcard) \<and>
   create ledger_1 wallet giftcard 5 None None =
     (Inr (transfer_3\<lparr>user := None, username := []\<rparr>),
      wallet\<lparr>balance := 2\<rparr>, giftcard\<lparr>balance := 8\<rparr>,
      ledger_2\<lparr>transfers := transfers ledger_1 @ [row_3\<lparr>user := None, username := []\<rparr>]\<rparr>)"
proof -
  have p: "is_debit_permitted wallet 5"
    by (simp add: is_debit_permitted_def wallet_def Account_def)
  have n: "acc_id wallet \<noteq> acc_id giftcard" by (simp add: ledger_1_facts)
  have f: "format_number 5 = Inr 500" "to_python 500 = 5"
    by (simp_all add: format_number_def round_half_even_def to_python_def)
  have s: "savable ledger_1 wallet (ledger_sum ledger_1 wallet - 500)"
    "savable ledger_1 giftcard (ledger_sum ledger_1 giftcard + 500)"
    by (simp_all add: ledger_sum_ledger_1 savable_ledger_1)
  have a: "\<not> shares (normalised_code wallet) (normalised_code giftcard)"
    by (simp add: shares_def normalised_code_def wallet_def giftcard_def Account_def)
  have c: "create ledger_1 wallet giftcard 5 None None =
     (Inr (transfer_3\<lparr>user := None, username := []\<rparr>),
      wallet\<lparr>balance := 2\<rparr>, giftcard\<lparr>balance := 8\<rparr>,
      ledger_2\<lparr>transfers := transfers ledger_1 @ [row_3\<lparr>user := None, username := []\<rparr>]\<rparr>)"
    by (simp add: ledger_eval upper_examples transfer_3_def row_3_def ledger_2_def)
  show ?thesis
    using create_posts_transfer [OF ledger_1_facts(2) ledger_1_facts(3) _ p n ledger_1_facts(1)
        f s a]
      c p n f s a ledger_1_facts
    by simp
qed

lemma posting_same_account:
  "fst (posting d a a amt None descr) =
     Inl (case format_number amt of Inl e \<Rightarrow> e | Inr c \<Rightarrow> IntegrityError) \<and>
   fst (snd (posting d a a amt None descr)) = a \<and>
   fst (snd (snd (posting d a a amt None descr))) = a"
proof (cases "format_number amt")
  case (Inl e)
  from Transfer_save_overflow [OF Inl, of d "acc_id a" "acc_id a" descr None]
  show ?thesis
    by (auto simp: posting_def Inl split: prod.splits sum.splits)
next
  case (Inr c)
  have st: "Transfer_save d \<lparr>transfer_id = None, source = acc_id a, destination = acc_id a,
                          amount = amt, description = descr, user = None, username = []\<rparr> =
           (Inr (), posted_transfer d a a amt None descr,
            d\<lparr>transfers := transfers d @ [posted_row d a a c None descr]\<rparr>)"
    using Transfer_save_new [OF Inr, of d a a descr None] by simp
  show ?thesis
    by (simp add: posting_def st posted_transfer_def Transaction_create_def Inr
        format_number_exact(2) [OF Inr])
qed

lemma create_same_account:
  assumes "is_open a" and "0 < amt" and "is_debit_permitted a amt"
  shows "create d a a amt None descr =
           (Inl (case format_number amt of Inl e \<Rightarrow> e | Inr c \<Rightarrow> IntegrityError), a, a, d)"
proof -
  have v: "verify_transfer a a amt = Inr ()"
    using assms by (simp add: verify_transfer_def)
  obtain r x y z where p: "posting d a a amt None descr = (r, x, y, z)"
    by (metis prod.collapse)
  with posting_same_account [of d a amt descr]
  have "r = Inl (case format_number amt of Inl e \<Rightarrow> e | Inr c \<Rightarrow> IntegrityError)"
    and "x = a" and "y = a" by simp_all
  then show ?thesis by (simp add: create_def v p commit_on_success_def)
qed

text \<open>
  Claim C9. For an open account whose debit of a positive amount is permitted,
  \<open>verify_transfer\<close> with the account as source and as destination raises nothing. The
  posting then comes to insert two transaction rows for the same transfer and account,
  which \<open>unique_together\<close> refuses: \<open>create\<close> ends with IntegrityError (or, for an
  amount that does not fit its column, with InvalidOperation at the first insert), the
  object unchanged and nothing written.
\<close>

theorem verify_transfer_same_account:
  assumes "is_open a" and "0 < amt" and "is_debit_permitted a amt"
  shows "verify_transfer a a amt = Inr () \<and>
         create d a a amt None descr =
           (Inl (case format_number amt of Inl e \<Rightarrow> e | Inr c \<Rightarrow> IntegrityError), a, a, d)"
  using assms create_same_account [OF assms] by (simp add: verify_transfer_def)

theorem verify_transfer_same_account_witness:
  "is_open bank \<and> (0::rat) < 1 \<and> is_debit_permitted bank 1 \<and>
   verify_transfer bank bank 1 = Inr () \<and>
   create ledger_1 bank bank 1 None None = (Inl IntegrityError, bank, bank, ledger_1)"
proof -
  have p: "is_debit_permitted bank 1" by (simp add: is_debit_permitted_def bank_def)
  have f: "format_number 1 = Inr 100" by (simp add: format_number_def round_half_even_def)
  show ?thesis
    using verify_transfer_same_account [of bank 1 ledger_1 None] p f ledger_1_facts by simp
qed

text \<open>
  The claim as first stated, for every open source and destination, fails when the two
  are the same account: the bank is open and may be debited, and a transfer of 1.00 from
  the bank to the bank raises IntegrityError and writes nothing.
\<close>

theorem create_same_account_counterexample:
  "is_open bank \<and> (0::rat) < 1 \<and> is_debit_permitted bank 1 \<and>
   create ledger_1 bank bank 1 None None = (Inl IntegrityError, bank, bank, ledger_1)"
proof -
  have p: "is_debit_permitted bank 1" by (simp add: is_debit_permitted_def bank_def)
  have f: "format_number 1 = Inr 100" by (simp add: format_number_def round_half_even_def)
  show ?thesis
    using p ledger_1_facts create_same_account [OF ledger_1_facts(4) _ p, of ledger_1 None] f
    by simp
qed

section \<open>Debit permission, activation, closing and validation\<close>

text \<open>
  Claim C4. \<open>is_debit_permitted\<close> is true exactly when the credit limit is null or the
  balance plus the credit limit is at least the amount. It is a function of the account
  object alone: it reads no table and returns nothing but the answer.
\<close>

theorem is_debit_permitted_iff:
  "is_debit_permitted a amt \<longleftrightarrow>
     credit_limit a = None \<or> (\<exists>l. credit_limit a = Some l \<and> balance a + l \<ge> amt)"
  by (simp add: is_debit_permitted_def split: option.split)

text \<open>
  Claim C10. An account with the default field values (credit limit 0.00, balance 0.00)
  permits no debit of a strictly positive amount, and it still permits none after a save
  while no transaction row references it.
\<close>

theorem default_account_no_debit:
  assumes "0 < amt"
  shows "credit_limit (Account i) = Some 0 \<and> balance (Account i) = 0 \<and>
         \<not> is_debit_permitted (Account i) amt \<and>
         (account_transactions d (Account i) = [] \<longrightarrow>
            \<not> is_debit_permitted (fst (snd (Account_save d (Account i)))) amt)"
proof -
  have f: "credit_limit (Account i) = Some 0" "balance (Account i) = 0"
    by (simp_all add: Account_def)
  have c: "credit_limit (saved d (Account i)) = Some 0" by (simp add: saved_fields f)
  have b: "account_transactions d (Account i) = [] \<longrightarrow> balance (saved d (Account i)) = 0"
    by (simp add: saved_fields ledger_sum_def to_python_def)
  show ?thesis
    using assms f c b by (simp add: Account_save_object is_debit_permitted_def)
qed

theorem default_account_no_debit_witness:
  "(0::rat) < 1 \<and> \<not> is_debit_permitted (Account 7) 1 \<and>
   \<not> is_debit_permitted (fst (snd (Account_save ledger_1 (Account 7)))) 1"
  using default_account_no_debit [of 1 7 ledger_1]
  by (simp add: ledger_1_def account_transactions_def Account_def)

text \<open>
  Claim C8. \<open>is_active\<close> is true exactly when today is in the half-open window from
  \<open>start_date\<close> (included) to \<open>end_date\<close> (excluded); a null start puts no lower bound,
  a null end no upper bound, and with both null the account is active.
\<close>

theorem is_active_window:
  "is_active a today \<longleftrightarrow>
     (case start_date a of None \<Rightarrow> True | Some s \<Rightarrow> s \<le> today) \<and>
     (case end_date a of None \<Rightarrow> True | Some e \<Rightarrow> today < e)"
  by (simp add: is_active_def split: option.split)

lemma close_closed:
  assumes "balance a \<le> 0"
  shows "close d a = Account_save d (a\<lparr>status := CLOSED\<rparr>)"
  using assms by (simp add: close_def)

lemma saved_status: "saved d (a\<lparr>status := s\<rparr>) = (saved d a)\<lparr>status := s\<rparr>"
proof -
  have "Account_balance d (a\<lparr>status := s\<rparr>) = Account_balance d a"
    by (rule Account_balance_cong) simp_all
  then show ?thesis by (simp add: saved_def normalised_code_update)
qed

lemma savable_status: "savable d (a\<lparr>status := s\<rparr>) x = savable d a x"
proof -
  have "unique_violation (accounts d) (normalised_code (a\<lparr>status := s\<rparr>)) =
        unique_violation (accounts d) (normalised_code a)"
    by (rule unique_violation_cong) (simp_all add: normalised_code_update)
  then show ?thesis by (simp add: savable_def credit_fits_def code_ascii_def)
qed

text \<open>
  Claim C5, as amended. \<open>close\<close> on an account whose balance is above zero raises
  AccountNotEmpty and leaves the object and the tables as they were. On a balance of
  zero or below it sets the status of the object to CLOSED and saves the account. When
  the save goes through, the row carries the new status. When the save raises, \<open>close\<close>
  raises the same exception, the object keeps the status CLOSED and the tables are as
  they were. The save goes through when the credit limit and the sum of the transaction
  rows of the account fit their columns, the code is ASCII and no other row has the
  name or the upper-cased code of the account.
\<close>

theorem close_cases:
  "(0 < balance a \<longrightarrow> close d a = (Inl AccountNotEmpty, a, d)) \<and>
   (balance a \<le> 0 \<longrightarrow>
      (\<exists>r a' d'. close d a = (r, a', d') \<and> (r, a', d') = Account_save d (a\<lparr>status := CLOSED\<rparr>) \<and>
                status a' = CLOSED \<and>
                (r = Inr () \<longrightarrow>
                   (\<exists>row. find_account d' (acc_id a) = Some row \<and> status row = CLOSED)) \<and>
                (r \<noteq> Inr () \<longrightarrow> d' = d) \<and>
                (savable d a (ledger_sum d a) \<longrightarrow> r = Inr ())))"
proof (intro conjI impI)
  assume "0 < balance a"
  then show "close d a = (Inl AccountNotEmpty, a, d)" by (simp add: close_def)
next
  assume le: "balance a \<le> 0"
  let ?a = "a\<lparr>status := CLOSED\<rparr>"
  obtain r a' d' where s: "Account_save d ?a = (r, a', d')" by (metis prod.collapse)
  have c: "close d a = (r, a', d')" using le s by (simp add: close_closed)
  have a': "a' = (saved d a)\<lparr>status := CLOSED\<rparr>"
    using Account_save_object [of d ?a] s by (simp add: saved_status)
  have st: "status a' = CLOSED" by (simp add: a')
  have ls: "ledger_sum d ?a = ledger_sum d a" by (rule ledger_sum_cong) simp_all
  have row: "r = Inr () \<longrightarrow> (\<exists>row. find_account d' (acc_id a) = Some row \<and> status row = CLOSED)"
  proof
    assume "r = Inr ()"
    with s have d': "d' = d\<lparr>accounts := upsert (stored a') (accounts d)\<rparr>"
      by (auto simp: Account_save_cases saved_status a' split: if_splits)
    have "find_account d' (acc_id (stored a')) = Some (stored a')"
      by (simp add: find_account_def d' find_upsert)
    then show "\<exists>row. find_account d' (acc_id a) = Some row \<and> status row = CLOSED"
      by (simp add: stored_fields a' saved_fields)
  qed
  have un: "r \<noteq> Inr () \<longrightarrow> d' = d"
    using s by (auto simp: Account_save_cases split: if_splits)
  have ok: "savable d a (ledger_sum d a) \<longrightarrow> r = Inr ()"
  proof
    assume "savable d a (ledger_sum d a)"
    then have "savable d ?a (ledger_sum d ?a)" by (simp add: savable_status ls)
    from Account_save_savable [OF this] s show "r = Inr ()" by simp
  qed
  show "\<exists>r a' d'. close d a = (r, a', d') \<and> (r, a', d') = Account_save d ?a \<and>
                status a' = CLOSED \<and>
                (r = Inr () \<longrightarrow>
                   (\<exists>row. find_account d' (acc_id a) = Some row \<and> status row = CLOSED)) \<and>
                (r \<noteq> Inr () \<longrightarrow> d' = d) \<and>
                (savable d a (ledger_sum d a) \<longrightarrow> r = Inr ())"
    using c s st row un ok by (intro exI [of _ r] exI [of _ a'] exI [of _ d']) simp
qed

theorem close_cases_witness:
  "0 < balance wallet \<and> close ledger_1 wallet = (Inl AccountNotEmpty, wallet, ledger_1) \<and>
   balance bank \<le> 0 \<and> savable ledger_1 bank (ledger_sum ledger_1 bank) \<and>
   fst (close ledger_1 bank) = Inr () \<and>
   status (fst (snd (close ledger_1 bank))) = CLOSED"
proof -
  have h1: "0 < balance wallet" by (simp add: wallet_def)
  have h2: "balance bank \<le> 0" by (simp add: bank_def)
  have h3: "savable ledger_1 bank (ledger_sum ledger_1 bank)"
    by (simp add: ledger_sum_ledger_1 savable_ledger_1)
  from close_cases [of wallet ledger_1] h1
  have c1: "close ledger_1 wallet = (Inl AccountNotEmpty, wallet, ledger_1)" by blast
  from close_cases [of bank ledger_1] h2 h3
  obtain r a' d' where "close ledger_1 bank = (r, a', d')" and "status a' = CLOSED"
    and "r = Inr ()"
    by blast
  then show ?thesis using h1 h2 h3 c1 by simp
qed

text \<open>
  The claim as first stated, that the account is persisted whenever the balance is zero
  or below, fails: the bank's object has been given the code of the gift card in lower
  case; its balance is -10.00; \<open>close\<close> raises IntegrityError, the object is CLOSED and
  carries the upper-cased code, and no row has changed.
\<close>

theorem close_collision_counterexample:
  "balance (bank\<lparr>code := Some ''gift-7''\<rparr>) \<le> 0 \<and>
   close ledger_1 (bank\<lparr>code := Some ''gift-7''\<rparr>) =
     (Inl IntegrityError, bank\<lparr>code := Some ''GIFT-7'', status := CLOSED\<rparr>, ledger_1)"
  by (simp add: close_collision) (simp add: bank_def)

text \<open>
  Claim C3. \<open>create\<close> checks, in this order and before it writes anything: the amount
  (InvalidAmount when it is not positive), the source (ClosedAccount, with the message
  about the source, when it is not open), the destination (ClosedAccount, with the
  message about the destination), the debit (InsufficientFunds with the amount and the
  identifier of the source when it is not permitted). In each case the exception is the
  one \<open>verify_transfer\<close> raises, and the two account objects and the tables are as
  before the call.
\<close>

theorem create_checks_in_order:
  "(amt \<le> 0 \<longrightarrow>
      verify_transfer src dst amt = Inl (InvalidAmount ''Debits must use a positive amount'') \<and>
      create d src dst amt usr descr =
        (Inl (InvalidAmount ''Debits must use a positive amount''), src, dst, d)) \<and>
   (0 < amt \<and> \<not> is_open src \<longrightarrow>
      verify_transfer src dst amt = Inl (ClosedAccount ''Source account has been closed'') \<and>
      create d src dst amt usr descr =
        (Inl (ClosedAccount ''Source account has been closed''), src, dst, d)) \<and>
   (0 < amt \<and> is_open src \<and> \<not> is_open dst \<longrightarrow>
      verify_transfer src dst amt = Inl (ClosedAccount ''Destination account has been closed'') \<and>
      create d src dst amt usr descr =
        (Inl (ClosedAccount ''Destination account has been closed''), src, dst, d)) \<and>
   (0 < amt \<and> is_open src \<and> is_open dst \<and> \<not> is_debit_permitted src amt \<longrightarrow>
      verify_transfer src dst amt = Inl (InsufficientFunds amt (acc_id src)) \<and>
      create d src dst amt usr descr = (Inl (InsufficientFunds amt (acc_id src)), src, dst, d))"
  by (simp add: create_def verify_transfer_def)

theorem create_checks_in_order_witness:
  "create ledger_1 wallet giftcard 0 None None =
     (Inl (InvalidAmount ''Debits must use a positive amount''), wallet, giftcard, ledger_1) \<and>
   create ledger_1 (wallet\<lparr>status := CLOSED\<rparr>) (giftcard\<lparr>status := CLOSED\<rparr>) 8 None None =
     (Inl (ClosedAccount ''Source account has been closed''),
      wallet\<lparr>status := CLOSED\<rparr>, giftcard\<lparr>status := CLOSED\<rparr>, ledger_1) \<and>
   create ledger_1 wallet (giftcard\<lparr>status := CLOSED\<rparr>) 8 None None =
     (Inl (ClosedAccount ''Destination account has been closed''),
      wallet, giftcard\<lparr>status := CLOSED\<rparr>, ledger_1) \<and>
   create ledger_1 wallet giftcard 8 None None =
     (Inl (InsufficientFunds 8 2), wallet, giftcard, ledger_1)"
proof -
  have c: "\<not> is_open (wallet\<lparr>status := CLOSED\<rparr>)" "\<not> is_open (giftcard\<lparr>status := CLOSED\<rparr>)"
    by (simp_all add: is_open_def OPEN_def CLOSED_def)
  have p: "\<not> is_debit_permitted wallet 8"
    by (simp add: is_debit_permitted_def wallet_def Account_def)
  show ?thesis
    using create_checks_in_order [of 0 wallet giftcard ledger_1 None None]
      create_checks_in_order [of 8 "wallet\<lparr>status := CLOSED\<rparr>" "giftcard\<lparr>status := CLOSED\<rparr>"
         ledger_1 None None]
      create_checks_in_order [of 8 wallet "giftcard\<lparr>status := CLOSED\<rparr>" ledger_1 None None]
      create_checks_in_order [of 8 wallet giftcard ledger_1 None None]
      c p ledger_1_facts
    by simp
qed

section \<open>Properties of Transfer\<close>

text \<open>
  Claim C7. \<open>delete\<close> on a transfer and on a transaction always raises RuntimeError,
  which is none of the validation errors (InvalidAmount, ClosedAccount,
  InsufficientFunds, AccountNotEmpty), and the tables are left as they were.
\<close>

theorem delete_raises:
  "Transfer_delete d t = (Inl (RuntimeError ''Transfers cannot be deleted''), d) \<and>
   Transaction_delete d x = (Inl (RuntimeError ''Transactions cannot be deleted''), d) \<and>
   \<not> is_validation_error (RuntimeError ''Transfers cannot be deleted'') \<and>
   \<not> is_validation_error (RuntimeError ''Transactions cannot be deleted'')"
  by (simp add: Transfer_delete_def Transaction_delete_def)

lemma Account_save_result:
  assumes "Account_save d a = (r, a', d')"
  shows "transfers d' = transfers d \<and> users d' = users d"
  using assms Account_save_tables [of d a] by simp

lemma Transaction_create_result:
  assumes "Transaction_create d tid k x = Inr d'"
  shows "transfers d' = transfers d \<and> users d' = users d"
  using assms by (auto simp: Transaction_create_def split: sum.splits if_splits)

lemma posting_success:
  assumes "posting d src dst amt usr descr = (Inr t, src', dst', d')"
  shows "\<exists>c. format_number amt = Inr c \<and> t = posted_transfer d src dst amt usr descr \<and>
             transfers d' = transfers d @ [posted_row d src dst c usr descr] \<and>
             users d' = users d"
proof (cases "format_number amt")
  case (Inl e)
  from Transfer_save_overflow [OF Inl, of d "acc_id src" "acc_id dst" descr usr] assms
  show ?thesis
    by (auto simp: posting_def split: prod.splits sum.splits)
next
  case (Inr c)
  note st = Transfer_save_new [OF Inr, of d src dst descr usr]
  from assms have "t = posted_transfer d src dst amt usr descr \<and>
             transfers d' = transfers d @ [posted_row d src dst c usr descr] \<and>
             users d' = users d"
    by (auto simp: posting_def st posted_transfer_def wrap_def
        split: sum.splits prod.splits
        dest!: Account_save_result Transaction_create_result)
  with Inr show ?thesis by simp
qed

lemma create_success:
  assumes "create d src dst amt usr descr = (Inr t, src', dst', d')"
  shows "posting d src dst amt usr descr = (Inr t, src', dst', d')"
  using assms
  by (auto simp: create_def commit_on_success_def split: sum.splits prod.splits)

text \<open>
  Claim C6, as amended. A transfer created with an authorising user stores the username
  that the User object has at that moment in its \<open>username\<close> field, and a later change
  of the name in the user's row does not touch the stored row. \<open>authorisor_username\<close>
  reports the username of the user the transfer refers to. On the Transfer object that
  \<open>create\<close> returned this is the User object it holds: the name at creation as long as
  that object is unchanged, whatever the tables say, and the new name when that very
  object is renamed. On the transfer read again from the table it is the user's row: after
  the change of name it reports the new name. It reports the stored name only once the
  reference is null, which is what deleting the user makes it (and what it is from the
  start for a user without a primary key).
\<close>

theorem username_snapshot:
  assumes "create d src dst amt (Some u) descr = (Inr t, src', dst', d')"
  shows "user t = Some (Held u) \<and> username t = user_username u \<and>
         authorisor_username e t = Inr (user_username u) \<and>
         authorisor_username e (t\<lparr>user := Some (Held (u\<lparr>user_username := n\<rparr>))\<rparr>) = Inr n \<and>
         (\<exists>row. row \<in> set (transfers d') \<and> transfer_id row = transfer_id t \<and>
                username row = user_username u \<and> user row = map_option Key (user_id u) \<and>
                row \<in> set (transfers (set_username d' k n)) \<and>
                (user_id u = None \<longrightarrow>
                   authorisor_username e (read_transfer row) = Inr (user_username u)) \<and>
                (user_id u = Some k \<and> users d' k \<noteq> None \<longrightarrow>
                   authorisor_username (set_username d' k n) (read_transfer row) = Inr n) \<and>
                (user_id u = Some k \<longrightarrow>
                   row\<lparr>user := None\<rparr> \<in> set (transfers (delete_user (set_username d' k n) k)) \<and>
                   authorisor_username (delete_user (set_username d' k n) k)
                     (read_transfer (row\<lparr>user := None\<rparr>)) = Inr (user_username u)))"
proof -
  from posting_success [OF create_success [OF assms]]
  obtain c where t: "t = posted_transfer d src dst amt (Some u) descr"
    and tf: "transfers d' = transfers d @ [posted_row d src dst c (Some u) descr]"
    by blast
  let ?row = "posted_row d src dst c (Some u) descr"
  have o: "user t = Some (Held u) \<and> username t = user_username u \<and>
           authorisor_username e t = Inr (user_username u) \<and>
           authorisor_username e (t\<lparr>user := Some (Held (u\<lparr>user_username := n\<rparr>))\<rparr>) = Inr n"
    by (simp add: t posted_transfer_def authorisor_username_def the_user_def)
  have r1: "?row \<in> set (transfers d')" by (simp add: tf)
  have r2: "transfer_id ?row = transfer_id t \<and> username ?row = user_username u \<and>
            user ?row = map_option Key (user_id u)"
    by (simp add: t posted_row_def posted_transfer_def)
  have ts: "transfers (set_username d' k n) = transfers d'"
    by (simp add: set_username_def split: option.split)
  have r3: "?row \<in> set (transfers (set_username d' k n))" by (simp add: ts r1)
  have r4: "user_id u = None \<longrightarrow>
              authorisor_username e (read_transfer ?row) = Inr (user_username u)"
    by (simp add: authorisor_username_def the_user_def read_transfer_def posted_row_def)
  have r5: "user_id u = Some k \<and> users d' k \<noteq> None \<longrightarrow>
              authorisor_username (set_username d' k n) (read_transfer ?row) = Inr n"
    by (auto simp: authorisor_username_def the_user_def read_transfer_def posted_row_def
        set_username_def)
  have r6: "user_id u = Some k \<longrightarrow>
              ?row\<lparr>user := None\<rparr> \<in> set (transfers (delete_user (set_username d' k n) k)) \<and>
              authorisor_username (delete_user (set_username d' k n) k)
                (read_transfer (?row\<lparr>user := None\<rparr>)) = Inr (user_username u)"
  proof
    assume k: "user_id u = Some k"
    then have "user ?row = Some (Key k)" by (simp add: posted_row_def)
    then have "?row\<lparr>user := None\<rparr> \<in> set (transfers (delete_user (set_username d' k n) k))"
      using r1 by (force simp: delete_user_def ts)
    then show "?row\<lparr>user := None\<rparr> \<in> set (transfers (delete_user (set_username d' k n) k)) \<and>
              authorisor_username (delete_user (set_username d' k n) k)
                (read_transfer (?row\<lparr>user := None\<rparr>)) = Inr (user_username u)"
      by (simp add: authorisor_username_def the_user_def read_transfer_def posted_row_def)
  qed
  show ?thesis
    using o r1 r2 r3 r4 r5 r6 by (intro conjI exI [of _ ?row]) simp_all
qed

theorem username_snapshot_witness:
  "create ledger_1 wallet giftcard 5 (Some alice) None =
     (Inr transfer_3, wallet\<lparr>balance := 2\<rparr>, giftcard\<lparr>balance := 8\<rparr>, ledger_2) \<and>
   username transfer_3 = ''alice'' \<and>
   authorisor_username (set_username ledger_2 1 ''alicia'') transfer_3 = Inr ''alice'' \<and>
   authorisor_username (set_username ledger_2 1 ''alicia'')
     (transfer_3\<lparr>user := Some (Held (alice\<lparr>user_username := ''alicia''\<rparr>))\<rparr>) = Inr ''alicia'' \<and>
   find_transfer (set_username ledger_2 1 ''alicia'') 3 = Some row_3 \<and>
   username row_3 = ''alice'' \<and>
   authorisor_username (set_username ledger_2 1 ''alicia'') (read_transfer row_3) =
     Inr ''alicia'' \<and>
   authorisor_username (delete_user (set_username ledger_2 1 ''alicia'') 1)
     (read_transfer (row_3\<lparr>user := None\<rparr>)) = Inr ''alice''"
proof -
  have e: "find_transfer (set_username ledger_2 1 ''alicia'') 3 = Some row_3"
    by (simp add: find_transfer_def set_username_def ledger_2_def ledger_1_def row_3_def)
  have r: "authorisor_username (set_username ledger_2 1 ''alicia'') (read_transfer row_3) =
             Inr ''alicia''"
    "authorisor_username (delete_user (set_username ledger_2 1 ''alicia'') 1)
       (read_transfer (row_3\<lparr>user := None\<rparr>)) = Inr ''alice''"
    by (simp_all add: authorisor_username_def the_user_def read_transfer_def row_3_def
        set_username_def delete_user_def ledger_2_def ledger_1_def)
  show ?thesis
    using username_snapshot [OF create_ledger_1, where e = "set_username ledger_2 1 ''alicia''"
        and k = 1 and n = "''alicia''"] create_ledger_1 e r
    by (simp add: alice_def row_3_def)
qed

text \<open>
  The claim as first stated fails: alice authorises the transfer, then her row is
  renamed, and \<open>authorisor_username\<close> of the transfer read from the table, which
  reported alice before, reports the new name.
\<close>

theorem authorisor_username_counterexample:
  "create ledger_1 wallet giftcard 5 (Some alice) None =
     (Inr transfer_3, wallet\<lparr>balance := 2\<rparr>, giftcard\<lparr>balance := 8\<rparr>, ledger_2) \<and>
   find_transfer ledger_2 3 = Some row_3 \<and>
   authorisor_username ledger_2 (read_transfer row_3) = Inr ''alice'' \<and>
   find_transfer (set_username ledger_2 1 ''alicia'') 3 = Some row_3 \<and>
   authorisor_username (set_username ledger_2 1 ''alicia'') (read_transfer row_3) =
     Inr ''alicia'' \<and>
   ''alicia'' \<noteq> ''alice''"
  using create_ledger_1
  by (simp add: find_transfer_def authorisor_username_def the_user_def read_transfer_def
      set_username_def ledger_2_def ledger_1_def row_3_def)

section \<open>The ledger as a whole\<close>

lemma Account_save_result_all:
  assumes "Account_save d a = (r, a', d')"
  shows "transfers d' = transfers d \<and> transactions d' = transactions d"
  using assms Account_save_tables [of d a] by simp

lemma posting_success_rows:
  assumes "posting d src dst amt usr descr = (Inr t, src', dst', d')"
  shows "\<exists>c. transfers d' = transfers d @ [posted_row d src dst c usr descr] \<and>
             transactions d' = transactions d @ posted_rows d src dst c"
proof (cases "format_number amt")
  case (Inl e)
  from Transfer_save_overflow [OF Inl, of d "acc_id src" "acc_id dst" descr usr] assms
  show ?thesis
    by (auto simp: posting_def split: prod.splits sum.splits)
next
  case (Inr c)
  note st = Transfer_save_new [OF Inr, of d src dst descr usr]
  from assms have "transfers d' = transfers d @ [posted_row d src dst c usr descr] \<and>
             transactions d' = transactions d @ posted_rows d src dst c"
    by (auto simp: posting_def st posted_transfer_def wrap_def Transaction_create_def Inr
          format_number_exact(2) [OF Inr] posted_rows_def
        split: sum.splits prod.splits if_splits
        dest!: Account_save_result_all)
  then show ?thesis by blast
qed

lemma referential_integrity_empty: "referential_integrity empty_db"
  by (simp add: referential_integrity_def empty_db_def)

lemma create_referential_integrity:
  assumes "referential_integrity d"
  shows "referential_integrity (snd (snd (snd (create d src dst amt usr descr))))"
proof (cases "fst (create d src dst amt usr descr)")
  case (Inl e)
  then have "snd (snd (snd (create d src dst amt usr descr))) = d"
    by (auto simp: create_def commit_on_success_def split: sum.splits prod.splits)
  with assms show ?thesis by simp
next
  case (Inr t)
  then obtain src' dst' d' where c: "create d src dst amt usr descr = (Inr t, src', dst', d')"
    by (metis prod.collapse)
  from posting_success_rows [OF create_success [OF c]] obtain c' where
    "transfers d' = transfers d @ [posted_row d src dst c' usr descr]"
    "transactions d' = transactions d @ posted_rows d src dst c'" by blast
  with assms have "referential_integrity d'"
    by (auto simp: referential_integrity_def list_all_iff list_ex_iff posted_rows_def
        posted_row_def)
  with c show ?thesis by simp
qed

text \<open>An amount below a hundredth passes the checks and is stored as 0.00.\<close>

lemma create_sub_cent:
  "fst (create ledger_1 bank wallet (1 / 1000) None None) =
     Inr (posted_transfer ledger_1 bank wallet (1 / 1000) None None) \<and>
   transactions (snd (snd (snd (create ledger_1 bank wallet (1 / 1000) None None)))) =
     transactions ledger_1 @
       [\<lparr>txn_transfer = 3, txn_account = 1, txn_amount = 0\<rparr>,
        \<lparr>txn_transfer = 3, txn_account = 2, txn_amount = 0\<rparr>]"
proof -
  have f: "format_number (1 / 1000) = Inr 0" by code_simp
  have p: "is_debit_permitted bank (1 / 1000)" by (simp add: is_debit_permitted_def bank_def)
  have n: "acc_id bank \<noteq> acc_id wallet" by (simp add: ledger_1_facts)
  have s: "savable ledger_1 bank (ledger_sum ledger_1 bank - 0)"
    "savable ledger_1 wallet (ledger_sum ledger_1 wallet + 0)"
    by (simp_all add: ledger_sum_ledger_1 savable_ledger_1)
  have a: "\<not> shares (normalised_code bank) (normalised_code wallet)"
    by (simp add: shares_def normalised_code_def wallet_def bank_def Account_def)
  have t: "next_transfer_id ledger_1 = 3" by (simp add: next_transfer_id_def ledger_1_def)
  show ?thesis
    by (simp add: create_ok [OF ledger_1_facts(4) ledger_1_facts(2) _ p n ledger_1_facts(1) f s a]
        posted_db_def posted_tables_def posted_rows_def t ledger_1_facts)
qed

end
